theory Spec2Isabelle
  imports Main "HOL-Library.AList"
begin

section \<open>Board evaluator (socket.ts 125-166, page.tsx 526-567)\<close>

text \<open>
  A board is a JavaScript array whose cells are \<open>null\<close> or one of the two strings
  \<open>'X'\<close> and \<open>'O'\<close> (the only strings the program ever writes into a board),
  here \<open>SymX\<close> and \<open>SymO\<close>.
  Sizes and cell indices are JavaScript numbers; the model covers the integers.
\<close>

datatype symbol = SymX | SymO

type_synonym cell = "symbol option"

type_synonym board = "cell list"

text \<open>
  \<open>board[i]\<close>: reading outside the array gives \<open>undefined\<close>, which is
  neither \<open>null\<close> nor a string. \<open>None\<close> is \<open>undefined\<close>,
  \<open>Some None\<close> is \<open>null\<close>.
\<close>

definition read :: "board \<Rightarrow> int \<Rightarrow> cell option" where
  "read b i = (if 0 \<le> i \<and> i < int (length b) then Some (b ! nat i) else None)"

text \<open>The index lists built by the three loops of \<open>checkWinner\<close>, in the order pushed.\<close>

definition rows :: "int \<Rightarrow> int list list" where
  "rows sz = map (\<lambda>i. map (\<lambda>j. i * sz + j) [0..sz - 1]) [0..sz - 1]"

definition cols :: "int \<Rightarrow> int list list" where
  "cols sz = map (\<lambda>i. map (\<lambda>j. j * sz + i) [0..sz - 1]) [0..sz - 1]"

definition diag1 :: "int \<Rightarrow> int list" where
  "diag1 sz = map (\<lambda>i. i * sz + i) [0..sz - 1]"

definition diag2 :: "int \<Rightarrow> int list" where
  "diag2 sz = map (\<lambda>i. i * sz + (sz - 1 - i)) [0..sz - 1]"

definition lines :: "int \<Rightarrow> int list list" where
  "lines sz = rows sz @ cols sz @ [diag1 sz, diag2 sz]"

text \<open>The final loop over the lines: the first line complete in one symbol decides.\<close>

fun scanLines :: "board \<Rightarrow> int list list \<Rightarrow> symbol option" where
  "scanLines b [] = None"
| "scanLines b (line # rest) =
     (let vals = map (read b) line in
      if list_all (\<lambda>val. val = Some (Some SymX)) vals then Some SymX
      else if list_all (\<lambda>val. val = Some (Some SymO)) vals then Some SymO
      else scanLines b rest)"

definition checkWinner :: "board \<Rightarrow> int \<Rightarrow> symbol option" where
  "checkWinner b sz = scanLines b (lines sz)"

definition isBoardFull :: "board \<Rightarrow> bool" where
  "isBoardFull b = list_all (\<lambda>c. c \<noteq> None) b"

text \<open>
  The terminal evaluation as the callers perform it (socket.ts 531-577, page.tsx 335-347,
  468-472): the winner is looked for first, fullness only when there is none.
\<close>

datatype outcome = Win symbol | Draw | Ongoing

definition evaluate :: "board \<Rightarrow> int \<Rightarrow> outcome" where
  "evaluate b sz =
     (case checkWinner b sz of
        Some s \<Rightarrow> Win s
      | None \<Rightarrow> if isBoardFull b then Draw else Ongoing)"

text \<open>
  The specification's notion of a win, stated independently of the scan: symbol \<open>s\<close>
  occupies every cell of some row, some column, the main diagonal or the anti-diagonal.
\<close>

definition occupies :: "board \<Rightarrow> symbol \<Rightarrow> int list \<Rightarrow> bool" where
  "occupies b s line = list_all (\<lambda>k. read b k = Some (Some s)) line"

definition completeLine :: "board \<Rightarrow> int \<Rightarrow> symbol \<Rightarrow> bool" where
  "completeLine b sz s =
     (list_ex (\<lambda>i. list_all (\<lambda>j. read b (i * sz + j) = Some (Some s)) [0..sz - 1]) [0..sz - 1]
      \<or> list_ex (\<lambda>i. list_all (\<lambda>j. read b (j * sz + i) = Some (Some s)) [0..sz - 1]) [0..sz - 1]
      \<or> list_all (\<lambda>i. read b (i * sz + i) = Some (Some s)) [0..sz - 1]
      \<or> list_all (\<lambda>i. read b (i * sz + (sz - 1 - i)) = Some (Some s)) [0..sz - 1])"

definition other :: "symbol \<Rightarrow> symbol" where
  "other s = (case s of SymX \<Rightarrow> SymO | SymO \<Rightarrow> SymX)"


text \<open>
  The first complete line in scan order: line \<open>k\<close> is complete in \<open>s\<close> and no
  earlier line is complete in either symbol.
\<close>

definition firstComplete :: "board \<Rightarrow> int list list \<Rightarrow> symbol \<Rightarrow> bool" where
  "firstComplete b ls s =
     list_ex (\<lambda>k. occupies b s (ls ! k)
                \<and> list_all (\<lambda>j. \<not> occupies b SymX (ls ! j) \<and> \<not> occupies b SymO (ls ! j)) [0..<k])
       [0..<length ls]"

text \<open>
  The same, as a split of the list of lines: some line is complete in \<open>s\<close>, no line
  before it is complete in either symbol, and \<open>X\<close> is tested first on the line itself.
\<close>

definition firstCompleteP :: "board \<Rightarrow> int list list \<Rightarrow> symbol \<Rightarrow> bool" where
  "firstCompleteP b ls s \<longleftrightarrow>
     (\<exists>pre l post. ls = pre @ l # post
        \<and> (\<forall>l'\<in>set pre. \<not> occupies b SymX l' \<and> \<not> occupies b SymO l')
        \<and> occupies b s l \<and> (s = SymO \<longrightarrow> \<not> occupies b SymX l))"

definition diagonalWinBoard :: board where
  "diagonalWinBoard = [Some SymX, Some SymO, Some SymO, None, Some SymX, None, None, None, Some SymX]"

definition drawnBoard :: board where
  "drawnBoard = [Some SymX, Some SymO, Some SymX, Some SymX, Some SymO, Some SymO, Some SymO, Some SymX, Some SymX]"

definition twoLinesBoard :: board where
  "twoLinesBoard = [Some SymX, Some SymO, Some SymO, Some SymX, Some SymO, None, Some SymX, Some SymO, Some SymX]"


section \<open>Progression store (the Prisma tables used by socket.ts 190-297)\<close>

text \<open>
  The tables are lists of rows in insertion order. The Prisma schema is not part of the
  sources; what the code relies on is kept: a user is found by its id (its e-mail is
  the id followed by a fixed suffix, so both lookups find the same row), a card by its
  unique \<open>type\<close>, a holding by the pair of user and card. A card's generated id is
  in bijection with its unique type, so a holding names its card by the type. Counters
  that \<open>create\<close> leaves to the schema's defaults start at 0.
\<close>

datatype rarity = COMMON | RARE | EPIC | LEGENDARY

record stats =
  wins :: int
  losses :: int
  draws :: int
  streak :: int

record user = stats +
  u_id :: string
  u_name :: string

record card =
  c_type :: string
  c_name :: string
  c_rarity :: rarity

record userCard =
  uc_userId :: string
  uc_cardType :: string
  quantity :: int
  used :: int

record database =
  users :: "user list"
  cards :: "card list"
  userCards :: "userCard list"

text \<open>\<open>update({where: {id: row.id}, ...})\<close> on the row a lookup returned: the first match.\<close>

fun updateFirst :: "('a \<Rightarrow> bool) \<Rightarrow> ('a \<Rightarrow> 'a) \<Rightarrow> 'a list \<Rightarrow> 'a list" where
  "updateFirst P f [] = []"
| "updateFirst P f (r # rs) = (if P r then f r # rs else r # updateFirst P f rs)"

definition findUser :: "database \<Rightarrow> string \<Rightarrow> user option" where
  "findUser d userId = find (\<lambda>u. u_id u = userId) (users d)"

definition findCard :: "database \<Rightarrow> string \<Rightarrow> card option" where
  "findCard d cardType = find (\<lambda>c. c_type c = cardType) (cards d)"

definition holds :: "string \<Rightarrow> string \<Rightarrow> userCard \<Rightarrow> bool" where
  "holds userId cardType uc \<longleftrightarrow> uc_userId uc = userId \<and> uc_cardType uc = cardType"

definition findUserCard :: "database \<Rightarrow> string \<Rightarrow> string \<Rightarrow> userCard option" where
  "findUserCard d userId cardType = find (holds userId cardType) (userCards d)"

text \<open>The snapshot of a holding a player carries in a room (\<open>GameCard\<close>).\<close>

record gameCard =
  gc_name :: string
  gc_type :: string
  gc_rarity :: rarity
  gc_quantity :: int
  gc_used :: int

definition getUserCards :: "database \<Rightarrow> string \<Rightarrow> gameCard list" where
  "getUserCards d userId =
     List.map_filter
       (\<lambda>uc. case findCard d (uc_cardType uc) of
                None \<Rightarrow> None
              | Some c \<Rightarrow> Some \<lparr>gc_name = c_name c, gc_type = c_type c, gc_rarity = c_rarity c,
                                gc_quantity = quantity uc, gc_used = used uc\<rparr>)
       (filter (\<lambda>uc. uc_userId uc = userId) (userCards d))"

text \<open>
  Modelled from the spec: the Prisma schema is missing from the sources. A new holding's
  used count, which \<open>create\<close> leaves to the schema's default, starts at 0 (the
  "count historically consumed" of a holding).
\<close>

definition awardCard :: "database \<Rightarrow> string \<Rightarrow> string \<Rightarrow> database" where
  "awardCard d userId cardType =
     (case findCard d cardType of
        None \<Rightarrow> d
      | Some c \<Rightarrow>
          (case findUserCard d userId (c_type c) of
             Some existingUserCard \<Rightarrow>
               d\<lparr>userCards := updateFirst (holds userId (c_type c))
                    (\<lambda>r. r\<lparr>quantity := quantity existingUserCard + 1\<rparr>) (userCards d)\<rparr>
           | None \<Rightarrow>
               d\<lparr>userCards := userCards d @
                    [\<lparr>uc_userId = userId, uc_cardType = c_type c, quantity = 1, used = 0\<rparr>]\<rparr>))"

text \<open>\<open>useUserCard\<close>: \<open>None\<close> is the result \<open>false\<close>, \<open>Some d'\<close> is \<open>true\<close> with the updated store.\<close>

definition useUserCard :: "database \<Rightarrow> string \<Rightarrow> string \<Rightarrow> database option" where
  "useUserCard d userId cardType =
     (case findCard d cardType of
        None \<Rightarrow> None
      | Some c \<Rightarrow>
          (case findUserCard d userId (c_type c) of
             None \<Rightarrow> None
           | Some uc \<Rightarrow>
               if quantity uc \<le> 0 then None
               else Some (d\<lparr>userCards := updateFirst (holds userId (c_type c))
                              (\<lambda>r. r\<lparr>quantity := quantity uc - 1, used := used uc + 1\<rparr>)
                              (userCards d)\<rparr>)))"

datatype gameResult = ResultWin | ResultLoss | ResultDraw

definition updateUserStats :: "database \<Rightarrow> string \<Rightarrow> gameResult \<Rightarrow> database" where
  "updateUserStats d userId result =
     (case findUser d userId of
        None \<Rightarrow> d
      | Some u \<Rightarrow>
          (case result of
             ResultWin \<Rightarrow>
               (let newWins = wins u + 1;
                    newStreak = streak u + 1;
                    d1 = (if newStreak = 3 then awardCard d userId ''PROTECTION''
                          else if newStreak = 5 then awardCard d userId ''GIANT''
                          else d)
                in d1\<lparr>users := updateFirst (\<lambda>r. u_id r = userId)
                           (\<lambda>r. r\<lparr>wins := newWins, losses := losses u, draws := draws u,
                                    streak := newStreak\<rparr>) (users d1)\<rparr>)
           | ResultLoss \<Rightarrow>
               d\<lparr>users := updateFirst (\<lambda>r. u_id r = userId)
                          (\<lambda>r. r\<lparr>wins := wins u, losses := losses u + 1, draws := draws u,
                                   streak := 0\<rparr>) (users d)\<rparr>
           | ResultDraw \<Rightarrow>
               d\<lparr>users := updateFirst (\<lambda>r. u_id r = userId)
                          (\<lambda>r. r\<lparr>wins := wins u, losses := losses u, draws := draws u + 1,
                                   streak := 0\<rparr>) (users d)\<rparr>))"

text \<open>
  Modelled from the spec: the Prisma schema is missing from the sources. The win, loss,
  draw and streak counters of a new user, which \<open>create\<close> leaves to the schema's
  defaults, start at 0. The rest is the find-or-create of the acting user that opens
  \<open>createRoom\<close> and \<open>joinRoom\<close> (socket.ts 327-344, 394-411).
\<close>

definition upsertUser :: "database \<Rightarrow> string \<Rightarrow> string \<Rightarrow> database" where
  "upsertUser d socketId playerName =
     (case findUser d socketId of
        None \<Rightarrow>
          d\<lparr>users := users d @
               [\<lparr>wins = 0, losses = 0, draws = 0, streak = 0, u_id = socketId, u_name = playerName\<rparr>]\<rparr>
      | Some _ \<Rightarrow>
          d\<lparr>users := updateFirst (\<lambda>r. u_id r = socketId) (\<lambda>r. r\<lparr>u_name := playerName\<rparr>) (users d)\<rparr>)"


section \<open>Rooms and the socket handlers (socket.ts 299-633)\<close>

datatype status = WAITING | PLAYING | FINISHED | ABANDONED

record player =
  p_id :: string
  p_name :: string
  p_symbol :: symbol
  p_isCurrent :: bool
  p_cards :: "gameCard list"

record moveRecord =
  m_position :: int
  m_symbol :: symbol
  m_playerId :: string
  m_timestamp :: int

text \<open>
  \<open>GameRoom\<close>. \<open>boardState\<close> holds the board itself: the handlers only ever store
  \<open>JSON.stringify\<close> of a board and read it back with \<open>JSON.parse\<close>, which returns
  the same array of \<open>null\<close>, \<open>'X'\<close> and \<open>'O'\<close>. The random \<open>id\<close> is left out:
  nothing reads it.
\<close>

record gameRoom =
  roomId :: string
  boardSize :: int
  boardState :: board
  currentTurn :: string
  status :: status
  winner :: "symbol option"
  players :: "player list"
  blockedCells :: "int list"
  moveHistory :: "moveRecord list"

text \<open>
  What a handler emits, in order. \<open>ToSocket\<close> is \<open>socket.emit\<close> (the acting
  connection only), \<open>ToRoom\<close> is \<open>io.to(roomId).emit\<close> (the broadcast).
  \<open>convertToGameState\<close> renames fields of the room and drops its \<open>id\<close>, so a
  \<open>gameStateUpdate\<close> carries the room. Which connections have joined a room's
  channel (\<open>socket.join\<close>) is not modelled: an emission names its audience.
\<close>

datatype audience = ToSocket string | ToRoom string

datatype event =
    Error string
  | RoomCreated string string
  | RoomJoined string string
  | PlayerJoined "player list"
  | PlayerLeft string
  | CardUsed string string
  | GameOver "symbol option" "stats"
  | GameStateUpdate gameRoom

type_synonym emission = "audience \<times> event"

text \<open>
  The process state: \<open>gameRooms\<close> is the JavaScript \<open>Map\<close> (keys in insertion order,
  \<open>set\<close> on a present key replaces the value in place), \<open>db\<close> the store.
\<close>

record server =
  gameRooms :: "(string \<times> gameRoom) list"
  db :: database

text \<open>
  \<open>Array(n)\<close> throws a \<open>RangeError\<close> unless \<open>n\<close> is an array length, that is
  below \<open>2^32\<close>; \<open>None\<close> is the throw.
\<close>

definition createGameRoom :: "string \<Rightarrow> int \<Rightarrow> gameRoom option" where
  "createGameRoom rid bSize =
     (if 0 \<le> bSize * bSize \<and> bSize * bSize < 2 ^ 32
      then Some \<lparr>roomId = rid, boardSize = bSize,
                  boardState = replicate (nat (bSize * bSize)) None,
                  currentTurn = [], status = WAITING, winner = None, players = [],
                  blockedCells = [], moveHistory = []\<rparr>
      else None)"

definition createRoom :: "server \<Rightarrow> string \<Rightarrow> string \<times> string \<times> int \<Rightarrow> server \<times> emission list" where
  "createRoom st socketId data =
     (case data of (rid, playerName, bSize) \<Rightarrow>
        let d1 = upsertUser (db st) socketId playerName in
        (case createGameRoom rid bSize of
           None \<Rightarrow> (st\<lparr>db := d1\<rparr>, [(ToSocket socketId, Error ''Failed to create room'')])
         | Some room \<Rightarrow>
             let pl = \<lparr>p_id = socketId, p_name = playerName, p_symbol = SymX,
                        p_isCurrent = True, p_cards = getUserCards d1 socketId\<rparr>;
                 room1 = room\<lparr>players := players room @ [pl], currentTurn := socketId\<rparr>
             in (st\<lparr>gameRooms := AList.update rid room1 (gameRooms st), db := d1\<rparr>,
                 [(ToSocket socketId, RoomCreated rid socketId),
                  (ToRoom rid, GameStateUpdate room1)])))"

definition joinRoom :: "server \<Rightarrow> string \<Rightarrow> string \<times> string \<Rightarrow> server \<times> emission list" where
  "joinRoom st socketId data =
     (case data of (rid, playerName) \<Rightarrow>
        (case map_of (gameRooms st) rid of
           None \<Rightarrow> (st, [(ToSocket socketId, Error ''Room not found'')])
         | Some room \<Rightarrow>
             if length (players room) \<ge> 2
             then (st, [(ToSocket socketId, Error ''Room is full'')])
             else
               let d1 = upsertUser (db st) socketId playerName;
                   pl = \<lparr>p_id = socketId, p_name = playerName, p_symbol = SymO,
                          p_isCurrent = False, p_cards = getUserCards d1 socketId\<rparr>;
                   room1 = room\<lparr>players := players room @ [pl], status := PLAYING\<rparr>
               in (st\<lparr>gameRooms := AList.update rid room1 (gameRooms st), db := d1\<rparr>,
                   [(ToSocket socketId, RoomJoined rid socketId),
                    (ToRoom rid, PlayerJoined (players room1)),
                    (ToRoom rid, GameStateUpdate room1)])))"

text \<open>\<open>if (cardType)\<close>: an absent card type and the empty string are both falsy.\<close>

definition truthy :: "string option \<Rightarrow> bool" where
  "truthy cardType \<longleftrightarrow> cardType \<noteq> None \<and> cardType \<noteq> Some []"

text \<open>
  \<open>board[i] = v\<close>. Every write of the handlers follows a read of the same index that
  returned a string or \<open>null\<close>, so the index is inside the board; outside it the
  model leaves the board as it is (JavaScript would grow the array).
\<close>

definition setCell :: "board \<Rightarrow> int \<Rightarrow> cell \<Rightarrow> board" where
  "setCell b i v = (if 0 \<le> i \<and> i < int (length b) then b[nat i := v] else b)"

text \<open>
  The switch over the card type (socket.ts 473-506), after the card was consumed. It
  returns the room, the handler's local \<open>board\<close> and the broadcasts made.
\<close>

definition applyCardEffect ::
  "gameRoom \<Rightarrow> board \<Rightarrow> string \<Rightarrow> string \<Rightarrow> int \<Rightarrow> string \<Rightarrow> gameRoom \<times> board \<times> emission list" where
  "applyCardEffect room brd rid socketId position cardType =
     (if cardType = ''BLOCK'' then
        ((if position \<in> set (blockedCells room) then room
          else room\<lparr>blockedCells := blockedCells room @ [position]\<rparr>),
         brd, [(ToRoom rid, CardUsed ''Block'' socketId)])
      else if cardType = ''DOUBLE_MOVE'' then
        (room, brd, [(ToRoom rid, CardUsed ''Double Move'' socketId)])
      else if cardType = ''SWAP_CELL'' then
        (case find (\<lambda>p. p_id p \<noteq> socketId) (players room) of
           None \<Rightarrow> (room, brd, [])
         | Some opponent \<Rightarrow>
             if read brd position = Some (Some (p_symbol opponent)) then
               (case find (\<lambda>p. p_id p = socketId) (players room) of
                  None \<Rightarrow> (room, brd, [])
                | Some me \<Rightarrow>
                    (case filter (\<lambda>i. brd ! i = Some (p_symbol me)) [0..<length brd] of
                       [] \<Rightarrow> (room, brd, [])
                     | swapPosition # _ \<Rightarrow>
                         let brd1 = setCell (setCell brd position (Some (p_symbol me)))
                                      (int swapPosition) (Some (p_symbol opponent))
                         in (room\<lparr>boardState := brd1\<rparr>, brd1,
                             [(ToRoom rid, CardUsed ''Swap Cell'' socketId)])))
             else (room, brd, []))
      else (room, brd, []))"

definition zeroStats :: stats where
  "zeroStats = \<lparr>wins = 0, losses = 0, draws = 0, streak = 0\<rparr>"

text \<open>
  The rest of \<open>makeMove\<close> (socket.ts 509-580): validity of the target cell, placement,
  terminal evaluation. \<open>room\<close> and \<open>brd\<close> are as the card effect left them, \<open>d\<close> is
  the store after the card was consumed, \<open>out\<close> what was emitted so far.
\<close>

definition placeMark ::
  "server \<Rightarrow> database \<Rightarrow> gameRoom \<Rightarrow> board \<Rightarrow> emission list \<Rightarrow> string \<Rightarrow> int \<Rightarrow> string \<Rightarrow> int
     \<Rightarrow> server \<times> emission list" where
  "placeMark st d room brd out rid now socketId position =
     (if read brd position \<noteq> Some None \<or> position \<in> set (blockedCells room) then
        (st\<lparr>gameRooms := AList.update rid room (gameRooms st), db := d\<rparr>,
         out @ [(ToSocket socketId, Error ''Invalid move'')])
      else
        (case find (\<lambda>p. p_id p = socketId) (players room) of
           None \<Rightarrow> (st\<lparr>gameRooms := AList.update rid room (gameRooms st), db := d\<rparr>, out)
         | Some currentPlayer \<Rightarrow>
             let brd1 = setCell brd position (Some (p_symbol currentPlayer));
                 room1 = room\<lparr>boardState := brd1,
                              moveHistory := moveHistory room @
                                [\<lparr>m_position = position, m_symbol = p_symbol currentPlayer,
                                  m_playerId = socketId, m_timestamp = now\<rparr>]\<rparr>
             in
             (case evaluate brd1 (boardSize room1) of
                Win w \<Rightarrow>
                  let room2 = room1\<lparr>status := FINISHED, winner := Some w\<rparr>;
                      winnerPlayer = find (\<lambda>p. p_symbol p = w) (players room2);
                      loserPlayer = find (\<lambda>p. p_symbol p \<noteq> w) (players room2);
                      d1 = (case winnerPlayer of None \<Rightarrow> d
                            | Some wp \<Rightarrow> updateUserStats d (p_id wp) ResultWin);
                      d2 = (case loserPlayer of None \<Rightarrow> d1
                            | Some lp \<Rightarrow> updateUserStats d1 (p_id lp) ResultLoss);
                      winnerStats = (case winnerPlayer of None \<Rightarrow> None
                                     | Some wp \<Rightarrow> findUser d2 (p_id wp));
                      shown = (case winnerStats of None \<Rightarrow> zeroStats
                               | Some u \<Rightarrow> \<lparr>wins = wins u, losses = losses u,
                                             draws = draws u, streak = streak u\<rparr>)
                  in (st\<lparr>gameRooms := AList.update rid room2 (gameRooms st), db := d2\<rparr>,
                      out @ [(ToRoom rid, GameOver (Some w) shown),
                             (ToRoom rid, GameStateUpdate room2)])
              | Draw \<Rightarrow>
                  let room2 = room1\<lparr>status := FINISHED, winner := None\<rparr>;
                      d1 = foldl (\<lambda>acc p. updateUserStats acc (p_id p) ResultDraw) d (players room2)
                  in (st\<lparr>gameRooms := AList.update rid room2 (gameRooms st), db := d1\<rparr>,
                      out @ [(ToRoom rid, GameOver None zeroStats),
                             (ToRoom rid, GameStateUpdate room2)])
              | Ongoing \<Rightarrow>
                  let room2 = (case find (\<lambda>p. p_id p \<noteq> socketId) (players room1) of
                                 None \<Rightarrow> room1
                               | Some nextPlayer \<Rightarrow> room1\<lparr>currentTurn := p_id nextPlayer\<rparr>)
                  in (st\<lparr>gameRooms := AList.update rid room2 (gameRooms st), db := d\<rparr>,
                      out @ [(ToRoom rid, GameStateUpdate room2)]))))"

text \<open>
  \<open>makeMove\<close> (socket.ts 442-586). \<open>now\<close> is the clock read for the move record.
\<close>

definition makeMove ::
  "server \<Rightarrow> string \<Rightarrow> int \<Rightarrow> string \<times> int \<times> string option \<Rightarrow> server \<times> emission list" where
  "makeMove st socketId now data =
     (case data of (rid, position, cardType) \<Rightarrow>
        (case map_of (gameRooms st) rid of
           None \<Rightarrow> (st, [(ToSocket socketId, Error ''Room not found'')])
         | Some room \<Rightarrow>
             if status room \<noteq> PLAYING then
               (st, [(ToSocket socketId, Error ''Game is not active'')])
             else if currentTurn room \<noteq> socketId then
               (st, [(ToSocket socketId, Error ''Not your turn'')])
             else
               let brd = boardState room in
               if truthy cardType then
                 (case useUserCard (db st) socketId (the cardType) of
                    None \<Rightarrow> (st, [(ToSocket socketId, Error ''Card not available'')])
                  | Some d1 \<Rightarrow>
                      (case applyCardEffect room brd rid socketId position (the cardType) of
                         (room1, brd1, out) \<Rightarrow>
                           placeMark st d1 room1 brd1 out rid now socketId position))
               else placeMark st (db st) room brd [] rid now socketId position))"

definition getGameState :: "server \<Rightarrow> string \<Rightarrow> string \<Rightarrow> server \<times> emission list" where
  "getGameState st socketId rid =
     (case map_of (gameRooms st) rid of
        None \<Rightarrow> (st, [])
      | Some room \<Rightarrow> (st, [(ToSocket socketId, GameStateUpdate room)]))"

text \<open>\<open>players.splice(playerIndex, 1)\<close> at the first index whose player has the id.\<close>

fun removeFirst :: "('a \<Rightarrow> bool) \<Rightarrow> 'a list \<Rightarrow> 'a list" where
  "removeFirst P [] = []"
| "removeFirst P (x # xs) = (if P x then xs else x # removeFirst P xs)"

definition disconnect :: "server \<Rightarrow> string \<Rightarrow> server \<times> emission list" where
  "disconnect st socketId =
     (case find (\<lambda>(rid, room). list_ex (\<lambda>p. p_id p = socketId) (players room)) (gameRooms st) of
        None \<Rightarrow> (st, [])
      | Some (rid, room) \<Rightarrow>
          let room1 = room\<lparr>players := removeFirst (\<lambda>p. p_id p = socketId) (players room)\<rparr> in
          if length (players room1) = 0
          then (st\<lparr>gameRooms := AList.delete rid (gameRooms st)\<rparr>, [])
          else
            let room2 = room1\<lparr>status := WAITING\<rparr> in
            (st\<lparr>gameRooms := AList.update rid room2 (gameRooms st)\<rparr>,
             [(ToRoom rid, PlayerLeft socketId), (ToRoom rid, GameStateUpdate room2)]))"


section \<open>AI opponent, hard difficulty (page.tsx 448-497)\<close>

text \<open>
  Scores are JavaScript numbers: the integers \<open>10 - depth\<close>, \<open>depth - 10\<close> and \<open>0\<close>,
  and the two infinities the loops start from. \<open>jsMax\<close> is \<open>Math.max\<close>, \<open>jsMin\<close> is
  \<open>Math.min\<close>, \<open>jsGreater x y\<close> is \<open>x > y\<close>. The AI plays \<open>'O'\<close>.
\<close>

datatype jsnum = NegInf | Num int | PosInf

fun jsMax :: "jsnum \<Rightarrow> jsnum \<Rightarrow> jsnum" where
  "jsMax PosInf _ = PosInf"
| "jsMax _ PosInf = PosInf"
| "jsMax NegInf y = y"
| "jsMax x NegInf = x"
| "jsMax (Num a) (Num b) = Num (max a b)"

fun jsMin :: "jsnum \<Rightarrow> jsnum \<Rightarrow> jsnum" where
  "jsMin NegInf _ = NegInf"
| "jsMin _ NegInf = NegInf"
| "jsMin PosInf y = y"
| "jsMin x PosInf = x"
| "jsMin (Num a) (Num b) = Num (min a b)"

fun jsGreater :: "jsnum \<Rightarrow> jsnum \<Rightarrow> bool" where
  "jsGreater NegInf _ = False"
| "jsGreater _ PosInf = False"
| "jsGreater _ NegInf = True"
| "jsGreater PosInf _ = True"
| "jsGreater (Num a) (Num b) = (a > b)"

text \<open>The number of empty cells: it decreases along every move of the search.\<close>

definition emptyCount :: "board \<Rightarrow> nat" where
  "emptyCount b = length (filter (\<lambda>c. c = None) b)"

lemma emptyCount_fill:
  "i < length b \<Longrightarrow> b ! i = None \<Longrightarrow> emptyCount (b[i := Some s]) < emptyCount b"
proof (induction b arbitrary: i)
  case Nil
  then show ?case by simp
next
  case (Cons c b)
  then show ?case
    by (cases i) (auto simp: emptyCount_def)
qed

function minimax :: "board \<Rightarrow> int \<Rightarrow> int \<Rightarrow> bool \<Rightarrow> jsnum" where
  "minimax b sz depth isMaximizing =
     (case checkWinner b sz of
        Some w \<Rightarrow> (case w of SymO \<Rightarrow> Num (10 - depth) | SymX \<Rightarrow> Num (depth - 10))
      | None \<Rightarrow>
          if isBoardFull b then Num 0
          else if isMaximizing then
            foldl (\<lambda>bestScore i.
                     if b ! i = None
                     then jsMax (minimax (b[i := Some SymO]) sz (depth + 1) False) bestScore
                     else bestScore)
              NegInf [0..<length b]
          else
            foldl (\<lambda>bestScore i.
                     if b ! i = None
                     then jsMin (minimax (b[i := Some SymX]) sz (depth + 1) True) bestScore
                     else bestScore)
              PosInf [0..<length b])"
  by pat_completeness auto
termination
  by (relation "measure (\<lambda>(b, sz, depth, isMaximizing). emptyCount b)")
     (auto simp: emptyCount_fill)

text \<open>
  \<open>getBestMove\<close>: the loop carries \<open>bestScore\<close> and \<open>bestMove\<close>, starting from
  \<open>-Infinity\<close> and \<open>-1\<close>, and replaces them only on a strictly greater score.
\<close>

definition getBestMove :: "board \<Rightarrow> int \<Rightarrow> int" where
  "getBestMove b sz =
     snd (foldl (\<lambda>(bestScore, bestMove) i.
                   if b ! i = None then
                     (let score = minimax (b[i := Some SymO]) sz 0 False in
                      if jsGreater score bestScore then (score, int i) else (bestScore, bestMove))
                   else (bestScore, bestMove))
            (NegInf, - 1) [0..<length b])"

text \<open>
  The specification's value of a position: full minimax down to the terminal positions,
  \<open>10 - depth\<close> for a win of the AI, \<open>depth - 10\<close> for a win of the opponent, \<open>0\<close> for
  a draw, the maximum over the AI's moves and the minimum over the opponent's.
\<close>

definition emptyCells :: "board \<Rightarrow> nat list" where
  "emptyCells b = filter (\<lambda>i. b ! i = None) [0..<length b]"

function minimaxValue :: "board \<Rightarrow> int \<Rightarrow> int \<Rightarrow> bool \<Rightarrow> int" where
  "minimaxValue b sz depth aiToMove =
     (case evaluate b sz of
        Win w \<Rightarrow> if w = SymO then 10 - depth else depth - 10
      | Draw \<Rightarrow> 0
      | Ongoing \<Rightarrow>
          if aiToMove
          then Max (set (map (\<lambda>i. minimaxValue (b[i := Some SymO]) sz (depth + 1) False) (emptyCells b)))
          else Min (set (map (\<lambda>i. minimaxValue (b[i := Some SymX]) sz (depth + 1) True) (emptyCells b))))"
  by pat_completeness auto
termination
  by (relation "measure (\<lambda>(b, sz, depth, aiToMove). emptyCount b)")
     (auto simp: emptyCount_fill emptyCells_def)



definition aiBoard :: board where
  "aiBoard = [Some SymO, Some SymO, None, Some SymX, Some SymX, None, None, None, Some SymX]"


section \<open>Card catalogue, observers and example states\<close>

text \<open>
  \<open>CARD_TYPES\<close> (socket.ts 55-122) with key, name and rarity, and \<open>createInitialCards\<close>
  (socket.ts 168-188), which adds each card whose name the table does not hold yet.
\<close>

definition CARD_TYPES :: "(string \<times> string \<times> rarity) list" where
  "CARD_TYPES =
     [(''PROTECTION'', ''Protection'', RARE),
      (''GIANT'', ''Giant'', EPIC),
      (''DOUBLE_MOVE'', ''Double Move'', COMMON),
      (''BLOCK'', ''Block'', COMMON),
      (''SWAP_CELL'', ''Swap Cell'', RARE),
      (''TIME_FREEZE'', ''Time Freeze'', RARE),
      (''WILDCARD'', ''Wildcard'', EPIC),
      (''SHIELD'', ''Shield'', COMMON),
      (''TELEPORT'', ''Teleport'', EPIC),
      (''MIRROR'', ''Mirror'', LEGENDARY),
      (''RESET'', ''Reset'', LEGENDARY)]"

definition createInitialCards :: "database \<Rightarrow> database" where
  "createInitialCards d =
     foldl (\<lambda>acc entry. case entry of (key, nm, r) \<Rightarrow>
              (case find (\<lambda>c. c_name c = nm) (cards acc) of
                 Some existingCard \<Rightarrow> acc
               | None \<Rightarrow> acc\<lparr>cards := cards acc @ [\<lparr>c_type = key, c_name = nm, c_rarity = r\<rparr>]\<rparr>))
       d CARD_TYPES"

text \<open>The number of unused instances of a card a user holds; no holding row counts as 0.\<close>

definition heldQuantity :: "database \<Rightarrow> string \<Rightarrow> string \<Rightarrow> int" where
  "heldQuantity d userId cardType =
     (case findUserCard d userId cardType of None \<Rightarrow> 0 | Some uc \<Rightarrow> quantity uc)"

text \<open>
  A consumption as the card economy states it: the holding existed with a positive
  count, and afterwards its count is one less and its used count one more.
\<close>

definition cardConsumed :: "database \<Rightarrow> database \<Rightarrow> string \<Rightarrow> string \<Rightarrow> bool" where
  "cardConsumed d d1 userId cardType \<longleftrightarrow>
     (case (findUserCard d userId cardType, findUserCard d1 userId cardType) of
        (Some uc, Some uc1) \<Rightarrow>
          0 < quantity uc \<and> quantity uc1 = quantity uc - 1 \<and> used uc1 = used uc + 1
      | _ \<Rightarrow> False)"

text \<open>An emitted event that reports a failure.\<close>

definition isError :: "event \<Rightarrow> bool" where
  "isError e = (case e of Error _ \<Rightarrow> True | _ \<Rightarrow> False)"

text \<open>The target-cell test of \<open>makeMove\<close> (socket.ts 510), named.\<close>

definition invalidTarget :: "gameRoom \<Rightarrow> board \<Rightarrow> int \<Rightarrow> bool" where
  "invalidTarget room brd position \<longleftrightarrow>
     read brd position \<noteq> Some None \<or> position \<in> set (blockedCells room)"

text \<open>
  Example states: a store whose catalogue was initialised, a user with a given streak,
  and a 3x3 room created by socket \<open>s1\<close> and joined by socket \<open>s2\<close>, with a few
  card holdings.
\<close>

definition freshStore :: database where
  "freshStore = createInitialCards \<lparr>users = [], cards = [], userCards = []\<rparr>"

definition streakStore :: "int \<Rightarrow> database" where
  "streakStore n =
     freshStore\<lparr>users := [\<lparr>wins = n, losses = 0, draws = 0, streak = n,
                             u_id = ''alice'', u_name = ''Alice''\<rparr>]\<rparr>"

definition demoStore :: database where
  "demoStore =
     freshStore\<lparr>userCards :=
       [\<lparr>uc_userId = ''s1'', uc_cardType = ''BLOCK'', quantity = 1, used = 0\<rparr>,
        \<lparr>uc_userId = ''s1'', uc_cardType = ''DOUBLE_MOVE'', quantity = 1, used = 0\<rparr>,
        \<lparr>uc_userId = ''s2'', uc_cardType = ''SWAP_CELL'', quantity = 2, used = 0\<rparr>]\<rparr>"

definition lobby :: server where
  "lobby = \<lparr>gameRooms = [], db = demoStore\<rparr>"

definition roomOpen :: server where
  "roomOpen = fst (createRoom lobby ''s1'' (''room'', ''Ann'', 3))"

definition roomPlaying :: server where
  "roomPlaying = fst (joinRoom roomOpen ''s2'' (''room'', ''Bob''))"

definition plainMoves :: "server \<Rightarrow> (string \<times> int) list \<Rightarrow> server" where
  "plainMoves st ms = foldl (\<lambda>acc m. fst (makeMove acc (fst m) 0 (''room'', snd m, None))) st ms"

definition roomWon :: server where
  "roomWon = plainMoves roomPlaying [(''s1'', 0), (''s2'', 3), (''s1'', 1), (''s2'', 4), (''s1'', 2)]"

definition roomRejoined :: server where
  "roomRejoined = fst (joinRoom (fst (disconnect roomWon ''s2'')) ''s3'' (''room'', ''Cy''))"


text \<open>The example room of an example state.\<close>

definition roomOf :: "server \<Rightarrow> gameRoom" where
  "roomOf st = the (map_of (gameRooms st) ''room'')"


text \<open>An example state in which \<open>s2\<close> holds the turn and both players have marks.\<close>

definition roomSwap :: server where
  "roomSwap = plainMoves roomPlaying [(''s1'', 0), (''s2'', 3), (''s1'', 1)]"


text \<open>
  A game in which \<open>s2\<close> exchanges two marks with a SwapCell card and then places a
  mark: the board then holds a complete column of each symbol.
\<close>

definition roomBeforeSwap :: server where
  "roomBeforeSwap = plainMoves roomPlaying
     [(''s1'', 1), (''s2'', 0), (''s1'', 3), (''s2'', 4), (''s1'', 6), (''s2'', 7), (''s1'', 8)]"

definition roomTwoLines :: server where
  "roomTwoLines =
     plainMoves (fst (makeMove roomBeforeSwap ''s2'' 0 (''room'', 1, Some ''SWAP_CELL'')))
       [(''s2'', 2)]"

text \<open>
  Where a symbol's first mark stands, scanning the board from cell 0, and a board
  without a mark of the symbol.
\<close>

definition firstMarkAt :: "board \<Rightarrow> symbol \<Rightarrow> nat \<Rightarrow> bool" where
  "firstMarkAt b s k \<longleftrightarrow>
     k < length b \<and> b ! k = Some s \<and> list_all (\<lambda>j. b ! j \<noteq> Some s) [0..<k]"

definition noMark :: "board \<Rightarrow> symbol \<Rightarrow> bool" where
  "noMark b s \<longleftrightarrow> list_all (\<lambda>c. c \<noteq> Some s) b"

text \<open>
  The example room after the first move of \<open>s1\<close>, and the store after a successful
  \<open>useUserCard\<close>.
\<close>

definition roomFirst :: server where
  "roomFirst = plainMoves roomPlaying [(''s1'', 0)]"

definition consumedStore :: "server \<Rightarrow> string \<Rightarrow> string \<Rightarrow> database" where
  "consumedStore st userId cardType = the (useUserCard (db st) userId cardType)"


text \<open>
  The states the server can be in: it starts with no room, over any store, and every
  handler call leads to the next state.
\<close>

inductive reachable :: "server \<Rightarrow> bool" where
  start: "reachable \<lparr>gameRooms = [], db = d\<rparr>"
| create: "reachable st \<Longrightarrow> reachable (fst (createRoom st socketId data))"
| join: "reachable st \<Longrightarrow> reachable (fst (joinRoom st socketId data))"
| move: "reachable st \<Longrightarrow> reachable (fst (makeMove st socketId now data))"
| query: "reachable st \<Longrightarrow> reachable (fst (getGameState st socketId rid))"
| leave: "reachable st \<Longrightarrow> reachable (fst (disconnect st socketId))"

text \<open>
  The part of the room invariant that holds in every reachable state: the board has
  \<open>N * N\<close> cells, a room has one or two players, and a \<open>PLAYING\<close> room has two.
\<close>

definition roomOk :: "gameRoom \<Rightarrow> bool" where
  "roomOk room \<longleftrightarrow>
     int (length (boardState room)) = boardSize room * boardSize room
     \<and> 1 \<le> length (players room) \<and> length (players room) \<le> 2
     \<and> (status room = PLAYING \<longrightarrow> length (players room) = 2)"

definition roomsInv :: "server \<Rightarrow> bool" where
  "roomsInv st \<longleftrightarrow>
     distinct (map fst (gameRooms st))
     \<and> (\<forall>rid room. map_of (gameRooms st) rid = Some room \<longrightarrow> roomOk room)"

text \<open>The example room after a Block card was played on the index 100.\<close>

definition roomBlocked :: server where
  "roomBlocked = fst (makeMove roomPlaying ''s1'' 0 (''room'', 100, Some ''BLOCK''))"





section \<open>The board evaluator is a first-complete-line scan\<close>

lemma occupies_vals:
  "list_all (\<lambda>val. val = Some (Some s)) (map (read b) line) = occupies b s line"
  by (simp add: occupies_def list_all_iff)

lemma scanLines_None:
  "scanLines b ls = None \<longleftrightarrow> (\<forall>l\<in>set ls. \<not> occupies b SymX l \<and> \<not> occupies b SymO l)"
  by (induction ls) (auto simp: Let_def occupies_vals)

lemma firstCompleteP_Nil: "\<not> firstCompleteP b [] s"
  by (simp add: firstCompleteP_def)

lemma firstCompleteP_Cons:
  "firstCompleteP b (a # ls) s \<longleftrightarrow>
     (if occupies b SymX a then s = SymX
      else if occupies b SymO a then s = SymO
      else firstCompleteP b ls s)"
proof -
  have "firstCompleteP b (a # ls) s \<longleftrightarrow>
      (occupies b s a \<and> (s = SymO \<longrightarrow> \<not> occupies b SymX a))
      \<or> (\<not> occupies b SymX a \<and> \<not> occupies b SymO a \<and> firstCompleteP b ls s)"
    unfolding firstCompleteP_def
    apply (rule iffI)
     apply (elim exE conjE)
    subgoal for pre l post
      by (cases pre) auto
    apply (erule disjE)
     apply (rule exI[of _ "[]"]) 
     apply simp
    apply (elim exE conjE)
    subgoal for pre l post
      by (rule exI[of _ "a # pre"]) auto
    done
  then show ?thesis
    by (cases s) auto
qed

lemma scanLines_Some: "scanLines b ls = Some s \<longleftrightarrow> firstCompleteP b ls s"
  by (induction ls) (auto simp: Let_def occupies_vals firstCompleteP_Nil firstCompleteP_Cons)

lemma rows_occ: "(\<exists>l\<in>set (rows sz). occupies b s l) \<longleftrightarrow>
  list_ex (\<lambda>i. list_all (\<lambda>j. read b (i * sz + j) = Some (Some s)) [0..sz - 1]) [0..sz - 1]"
  by (simp add: rows_def occupies_def list_ex_iff list.pred_map comp_def)

lemma cols_occ: "(\<exists>l\<in>set (cols sz). occupies b s l) \<longleftrightarrow>
  list_ex (\<lambda>i. list_all (\<lambda>j. read b (j * sz + i) = Some (Some s)) [0..sz - 1]) [0..sz - 1]"
  by (simp add: cols_def occupies_def list_ex_iff list.pred_map comp_def)

lemma diag1_occ: "occupies b s (diag1 sz) \<longleftrightarrow>
  list_all (\<lambda>i. read b (i * sz + i) = Some (Some s)) [0..sz - 1]"
  by (simp add: diag1_def occupies_def list.pred_map comp_def)

lemma diag2_occ: "occupies b s (diag2 sz) \<longleftrightarrow>
  list_all (\<lambda>i. read b (i * sz + (sz - 1 - i)) = Some (Some s)) [0..sz - 1]"
  by (simp add: diag2_def occupies_def list.pred_map comp_def)

lemma completeLine_lines:
  "completeLine b sz s \<longleftrightarrow> (\<exists>l\<in>set (lines sz). occupies b s l)"
proof -
  have "(\<exists>l\<in>set (lines sz). occupies b s l) \<longleftrightarrow>
     (\<exists>l\<in>set (rows sz). occupies b s l) \<or> (\<exists>l\<in>set (cols sz). occupies b s l)
       \<or> occupies b s (diag1 sz) \<or> occupies b s (diag2 sz)"
    by (auto simp: lines_def)
  then show ?thesis
    by (simp only: rows_occ cols_occ diag1_occ diag2_occ completeLine_def)
qed


lemma occupies_both_empty:
  "occupies b SymX l \<Longrightarrow> occupies b SymO l \<Longrightarrow> l = []"
  by (cases l) (auto simp: occupies_def)

lemma firstComplete_iff:
  assumes "\<forall>l\<in>set ls. l \<noteq> []"
  shows "firstComplete b ls s \<longleftrightarrow> firstCompleteP b ls s"
proof
  assume "firstComplete b ls s"
  then obtain k where k: "k < length ls" "occupies b s (ls ! k)"
    and pre: "\<forall>j<k. \<not> occupies b SymX (ls ! j) \<and> \<not> occupies b SymO (ls ! j)"
    by (auto simp: firstComplete_def list_ex_iff list_all_iff)
  have ne: "ls ! k \<noteq> []" using assms k(1) by simp
  have split: "ls = take k ls @ ls ! k # drop (Suc k) ls"
    using k(1) by (simp add: id_take_nth_drop)
  have "\<forall>l'\<in>set (take k ls). \<not> occupies b SymX l' \<and> \<not> occupies b SymO l'"
    using pre k(1) by (auto simp: in_set_conv_nth)
  moreover have "s = SymO \<longrightarrow> \<not> occupies b SymX (ls ! k)"
    using k(2) ne occupies_both_empty by blast
  ultimately show "firstCompleteP b ls s"
    unfolding firstCompleteP_def using split k(2) by blast
next
  assume "firstCompleteP b ls s"
  then obtain pre l post where d: "ls = pre @ l # post"
    and pre: "\<forall>l'\<in>set pre. \<not> occupies b SymX l' \<and> \<not> occupies b SymO l'"
    and occ: "occupies b s l"
    unfolding firstCompleteP_def by blast
  have "length pre < length ls" using d by simp
  moreover have "ls ! length pre = l" using d by simp
  moreover have "\<forall>j<length pre. ls ! j = pre ! j" using d by (simp add: nth_append)
  ultimately show "firstComplete b ls s"
    using pre occ by (auto simp: firstComplete_def list_ex_iff list_all_iff)
qed

lemma lines_nonempty: "0 < sz \<Longrightarrow> \<forall>l\<in>set (lines sz). l \<noteq> []"
  by (auto simp: lines_def rows_def cols_def diag1_def diag2_def)

lemma checkWinner_first:
  "0 < sz \<Longrightarrow> checkWinner b sz = Some s \<longleftrightarrow> firstComplete b (lines sz) s"
  by (simp add: checkWinner_def scanLines_Some firstComplete_iff lines_nonempty)

lemma checkWinner_None:
  "checkWinner b sz = None \<longleftrightarrow> (\<forall>t. \<not> completeLine b sz t)"
proof -
  have "(\<forall>t. \<not> completeLine b sz t) \<longleftrightarrow> \<not> completeLine b sz SymX \<and> \<not> completeLine b sz SymO"
    by (metis symbol.exhaust)
  then show ?thesis
    by (auto simp: checkWinner_def scanLines_None completeLine_lines)
qed

lemma checkWinner_sound:
  "checkWinner b sz = Some s \<Longrightarrow> completeLine b sz s"
  by (auto simp: checkWinner_def scanLines_Some firstCompleteP_def completeLine_lines)

lemma evaluate_Win: "evaluate b sz = Win s \<longleftrightarrow> checkWinner b sz = Some s"
  by (simp add: evaluate_def split: option.splits)

lemma evaluate_Draw: "evaluate b sz = Draw \<longleftrightarrow> checkWinner b sz = None \<and> isBoardFull b"
  by (simp add: evaluate_def split: option.splits)

text \<open>
  Claim C1, as the code has it. For a board size in \<open>{3, 4, 5}\<close>: the evaluation is
  \<open>Win s\<close> exactly when the first complete line in scan order (rows from the top,
  columns from the left, main diagonal, anti-diagonal) is complete in \<open>s\<close>; hence a
  reported winner occupies a complete row, column or diagonal, a symbol that is the only
  one to occupy a complete line is the reported winner, a win is reported as soon as
  some symbol occupies a complete line, and never for two symbols at once. The
  evaluation is \<open>Draw\<close> exactly when no cell is empty and no symbol occupies a complete
  line, so a board that is both full and winning is a win.
\<close>

theorem evaluate_classifies:
  assumes "sz \<in> {3, 4, 5}"
  shows "(evaluate b sz = Win s \<longleftrightarrow> firstComplete b (lines sz) s)
       \<and> (evaluate b sz = Win s \<longrightarrow> completeLine b sz s)
       \<and> (completeLine b sz s \<and> \<not> completeLine b sz (other s) \<longrightarrow> evaluate b sz = Win s)
       \<and> ((\<exists>t. evaluate b sz = Win t) \<longleftrightarrow> (\<exists>t. completeLine b sz t))
       \<and> (evaluate b sz = Win s \<and> evaluate b sz = Win t \<longrightarrow> s = t)
       \<and> (evaluate b sz = Draw \<longleftrightarrow> isBoardFull b \<and> \<not> (\<exists>t. completeLine b sz t))
       \<and> (isBoardFull b \<and> (\<exists>t. completeLine b sz t) \<longrightarrow> (\<exists>t. evaluate b sz = Win t))"
proof -
  have pos: "0 < sz" using assms by auto
  have win: "(\<exists>t. evaluate b sz = Win t) \<longleftrightarrow> (\<exists>t. completeLine b sz t)"
    using checkWinner_None[of b sz] by (auto simp: evaluate_Win)
  have uniq: "completeLine b sz s \<and> \<not> completeLine b sz (other s) \<longrightarrow> evaluate b sz = Win s"
  proof (intro impI, elim conjE)
    assume a: "completeLine b sz s" "\<not> completeLine b sz (other s)"
    then obtain t where t: "checkWinner b sz = Some t"
      using checkWinner_None[of b sz] by (cases "checkWinner b sz") auto
    have "completeLine b sz t" using t by (rule checkWinner_sound)
    then have "t = s" using a(2) by (cases s; cases t) (auto simp: other_def)
    then show "evaluate b sz = Win s" using t by (simp add: evaluate_Win)
  qed
  have first: "evaluate b sz = Win s \<longleftrightarrow> firstComplete b (lines sz) s"
    using pos by (simp add: evaluate_Win checkWinner_first)
  have sound: "evaluate b sz = Win s \<longrightarrow> completeLine b sz s"
    using checkWinner_sound[of b sz s] by (simp add: evaluate_Win)
  have one: "evaluate b sz = Win s \<and> evaluate b sz = Win t \<longrightarrow> s = t"
    by auto
  have draw: "evaluate b sz = Draw \<longleftrightarrow> isBoardFull b \<and> \<not> (\<exists>t. completeLine b sz t)"
    using checkWinner_None[of b sz] by (auto simp: evaluate_Draw)
  have prio: "isBoardFull b \<and> (\<exists>t. completeLine b sz t) \<longrightarrow> (\<exists>t. evaluate b sz = Win t)"
    using win by blast
  show ?thesis
    using first sound uniq win one draw prio by blast
qed

theorem evaluate_classifies_witness:
  "evaluate diagonalWinBoard 3 = Win SymX
   \<and> completeLine diagonalWinBoard 3 SymX
   \<and> evaluate drawnBoard 3 = Draw"
proof -
  have h: "(3::int) \<in> {3, 4, 5}" by simp
  have c: "completeLine diagonalWinBoard 3 SymX" "\<not> completeLine diagonalWinBoard 3 (other SymX)"
    by code_simp+
  have "\<not> completeLine drawnBoard 3 SymX" "\<not> completeLine drawnBoard 3 SymO"
    by code_simp+
  then have d: "\<not> (\<exists>t. completeLine drawnBoard 3 t)"
    by (metis symbol.exhaust)
  have f: "isBoardFull drawnBoard"
    by code_simp
  from evaluate_classifies[OF h, of diagonalWinBoard SymX] c
  have "evaluate diagonalWinBoard 3 = Win SymX" by blast
  moreover from evaluate_classifies[OF h, of drawnBoard SymX] d f
  have "evaluate drawnBoard 3 = Draw" by blast
  ultimately show ?thesis using c(1) by simp
qed

text \<open>
  Claim C1 as stated fails where both symbols occupy a complete line: on the board
  \<open>X O O / X O _ / X O X\<close> symbol \<open>O\<close> occupies the middle column, yet the
  evaluation is a win of \<open>X\<close>, whose left column is scanned first. The board occurs
  in play, after a SwapCell card (\<open>two_lines_reached\<close>).
\<close>

theorem evaluate_exactly_counterexample:
  "completeLine twoLinesBoard 3 SymO \<and> evaluate twoLinesBoard 3 = Win SymX"
  by code_simp


section \<open>The hard AI computes the minimax value\<close>

declare minimax.simps [simp del] minimaxValue.simps [simp del]

lemma foldl_jsMax_filter:
  "foldl (\<lambda>best i. if P i then jsMax (f i) best else best) acc xs
     = foldl (\<lambda>best i. jsMax (f i) best) acc (filter P xs)"
  by (induction xs arbitrary: acc) auto

lemma foldl_jsMin_filter:
  "foldl (\<lambda>best i. if P i then jsMin (f i) best else best) acc xs
     = foldl (\<lambda>best i. jsMin (f i) best) acc (filter P xs)"
  by (induction xs arbitrary: acc) auto

lemma foldl_jsMax_Num:
  "\<forall>i\<in>set xs. f i = Num (g i) \<Longrightarrow>
   foldl (\<lambda>best i. jsMax (f i) best) (Num a) xs = Num (Max (insert a (g ` set xs)))"
proof (induction xs arbitrary: a)
  case Nil
  then show ?case by simp
next
  case (Cons x xs)
  have "foldl (\<lambda>best i. jsMax (f i) best) (Num a) (x # xs)
      = foldl (\<lambda>best i. jsMax (f i) best) (Num (max (g x) a)) xs"
    using Cons.prems by simp
  also have "\<dots> = Num (Max (insert (max (g x) a) (g ` set xs)))"
    using Cons.prems by (intro Cons.IH) simp
  also have "Max (insert (max (g x) a) (g ` set xs)) = Max (insert a (g ` set (x # xs)))"
  proof (cases "xs = []")
    case True
    then show ?thesis by (simp add: max.commute)
  next
    case False
    then show ?thesis by (simp add: max.commute max.left_commute max.assoc)
  qed
  finally show ?case .
qed

lemma foldl_jsMin_Num:
  "\<forall>i\<in>set xs. f i = Num (g i) \<Longrightarrow>
   foldl (\<lambda>best i. jsMin (f i) best) (Num a) xs = Num (Min (insert a (g ` set xs)))"
proof (induction xs arbitrary: a)
  case Nil
  then show ?case by simp
next
  case (Cons x xs)
  have "foldl (\<lambda>best i. jsMin (f i) best) (Num a) (x # xs)
      = foldl (\<lambda>best i. jsMin (f i) best) (Num (min (g x) a)) xs"
    using Cons.prems by simp
  also have "\<dots> = Num (Min (insert (min (g x) a) (g ` set xs)))"
    using Cons.prems by (intro Cons.IH) simp
  also have "Min (insert (min (g x) a) (g ` set xs)) = Min (insert a (g ` set (x # xs)))"
  proof (cases "xs = []")
    case True
    then show ?thesis by (simp add: min.commute)
  next
    case False
    then show ?thesis by (simp add: min.commute min.left_commute min.assoc)
  qed
  finally show ?case .
qed

lemma foldl_jsMax_NegInf:
  assumes "xs \<noteq> []" "\<forall>i\<in>set xs. f i = Num (g i)"
  shows "foldl (\<lambda>best i. jsMax (f i) best) NegInf xs = Num (Max (g ` set xs))"
proof -
  obtain x xs' where xs: "xs = x # xs'" using assms(1) by (cases xs) auto
  have "foldl (\<lambda>best i. jsMax (f i) best) NegInf xs
      = foldl (\<lambda>best i. jsMax (f i) best) (Num (g x)) xs'"
    using assms(2) xs by simp
  also have "\<dots> = Num (Max (insert (g x) (g ` set xs')))"
    using assms(2) xs by (intro foldl_jsMax_Num) simp
  finally show ?thesis using xs by simp
qed

lemma foldl_jsMin_PosInf:
  assumes "xs \<noteq> []" "\<forall>i\<in>set xs. f i = Num (g i)"
  shows "foldl (\<lambda>best i. jsMin (f i) best) PosInf xs = Num (Min (g ` set xs))"
proof -
  obtain x xs' where xs: "xs = x # xs'" using assms(1) by (cases xs) auto
  have "foldl (\<lambda>best i. jsMin (f i) best) PosInf xs
      = foldl (\<lambda>best i. jsMin (f i) best) (Num (g x)) xs'"
    using assms(2) xs by simp
  also have "\<dots> = Num (Min (insert (g x) (g ` set xs')))"
    using assms(2) xs by (intro foldl_jsMin_Num) simp
  finally show ?thesis using xs by simp
qed

lemma emptyCells_nonempty: "\<not> isBoardFull b \<Longrightarrow> emptyCells b \<noteq> []"
  by (auto simp: isBoardFull_def emptyCells_def list_all_iff filter_empty_conv in_set_conv_nth)

lemma emptyCells_set: "i \<in> set (emptyCells b) \<longleftrightarrow> i < length b \<and> b ! i = None"
  by (auto simp: emptyCells_def)

lemma minimax_refines:
  "minimax b sz depth m = Num (minimaxValue b sz depth m)"
proof (induction b sz depth m rule: minimax.induct)
  case (1 b sz depth isMaximizing)
  show ?case
  proof (cases "checkWinner b sz")
    case (Some w)
    then show ?thesis
      by (cases w) (simp_all add: minimax.simps[of b] minimaxValue.simps[of b] evaluate_def)
  next
    case None
    show ?thesis
    proof (cases "isBoardFull b")
      case True
      then show ?thesis
        using None by (simp add: minimax.simps[of b] minimaxValue.simps[of b] evaluate_def)
    next
      case False
      have ne: "emptyCells b \<noteq> []" using False by (rule emptyCells_nonempty)
      have ev: "evaluate b sz = Ongoing" using None False by (simp add: evaluate_def)
      show ?thesis
      proof (cases isMaximizing)
        case True
        have ih: "\<forall>i\<in>set (emptyCells b).
            minimax (b[i := Some SymO]) sz (depth + 1) False
              = Num (minimaxValue (b[i := Some SymO]) sz (depth + 1) False)"
          using "1.IH"(1)[OF None False True] by (auto simp: emptyCells_set)
        have "minimax b sz depth isMaximizing
            = foldl (\<lambda>best i. jsMax (minimax (b[i := Some SymO]) sz (depth + 1) False) best)
                NegInf (emptyCells b)"
          using None False True
          by (simp add: minimax.simps[of b] foldl_jsMax_filter emptyCells_def)
        also have "\<dots> = Num (Max ((\<lambda>i. minimaxValue (b[i := Some SymO]) sz (depth + 1) False)
                                  ` set (emptyCells b)))"
          using ne ih by (rule foldl_jsMax_NegInf)
        also have "\<dots> = Num (minimaxValue b sz depth isMaximizing)"
          using ev True by (simp add: minimaxValue.simps[of b])
        finally show ?thesis .
      next
        case notmax: False
        have ih: "\<forall>i\<in>set (emptyCells b).
            minimax (b[i := Some SymX]) sz (depth + 1) True
              = Num (minimaxValue (b[i := Some SymX]) sz (depth + 1) True)"
          using "1.IH"(2)[OF None False notmax] by (auto simp: emptyCells_set)
        have "minimax b sz depth isMaximizing
            = foldl (\<lambda>best i. jsMin (minimax (b[i := Some SymX]) sz (depth + 1) True) best)
                PosInf (emptyCells b)"
          using None False notmax
          by (simp add: minimax.simps[of b] foldl_jsMin_filter emptyCells_def)
        also have "\<dots> = Num (Min ((\<lambda>i. minimaxValue (b[i := Some SymX]) sz (depth + 1) True)
                                  ` set (emptyCells b)))"
          using ne ih by (rule foldl_jsMin_PosInf)
        also have "\<dots> = Num (minimaxValue b sz depth isMaximizing)"
          using ev notmax by (simp add: minimaxValue.simps[of b])
        finally show ?thesis .
      qed
    qed
  qed
qed


lemma foldl_best_filter:
  "foldl (\<lambda>(bestScore, bestMove) i.
            if P i then (let score = f i in
                         if jsGreater score bestScore then (score, int i) else (bestScore, bestMove))
            else (bestScore, bestMove)) acc xs
   = foldl (\<lambda>(bestScore, bestMove) i.
            if jsGreater (f i) bestScore then (f i, int i) else (bestScore, bestMove)) acc (filter P xs)"
  by (induction xs arbitrary: acc) (auto simp: Let_def split: prod.splits)

lemma foldl_best_Num:
  assumes "sorted_wrt (<) xs" "\<forall>i\<in>set xs. f i = Num (g i)"
  shows "(foldl (\<lambda>(bestScore, bestMove) i.
            if jsGreater (f i) bestScore then (f i, int i) else (bestScore, bestMove)) (Num a, m) xs
          = (Num a, m) \<and> (\<forall>j\<in>set xs. g j \<le> a))
       \<or> (\<exists>i\<in>set xs. foldl (\<lambda>(bestScore, bestMove) i.
            if jsGreater (f i) bestScore then (f i, int i) else (bestScore, bestMove)) (Num a, m) xs
          = (Num (g i), int i) \<and> a < g i \<and> (\<forall>j\<in>set xs. g j \<le> g i)
            \<and> (\<forall>j\<in>set xs. j < i \<longrightarrow> g j < g i))"
  using assms
proof (induction xs arbitrary: a m)
  case Nil
  then show ?case by simp
next
  case (Cons x xs)
  let ?step = "\<lambda>(bestScore, bestMove) i.
            if jsGreater (f i) bestScore then (f i, int i) else (bestScore, bestMove)"
  have fx: "f x = Num (g x)" using Cons.prems(2) by simp
  have srt: "sorted_wrt (<) xs" and fs: "\<forall>i\<in>set xs. f i = Num (g i)"
    and lt: "\<forall>j\<in>set xs. x < j"
    using Cons.prems by auto
  show ?case
  proof (cases "a < g x")
    case True
    have st: "foldl ?step (Num a, m) (x # xs) = foldl ?step (Num (g x), int x) xs"
      using True fx by simp
    from Cons.IH[OF srt fs, of "g x" "int x"]
    show ?thesis
    proof
      assume u: "foldl ?step (Num (g x), int x) xs = (Num (g x), int x) \<and> (\<forall>j\<in>set xs. g j \<le> g x)"
      have "\<forall>j\<in>set (x # xs). j < x \<longrightarrow> g j < g x" using lt by auto
      then show ?thesis using u st True by (intro disjI2 bexI[of _ x]) auto
    next
      assume "\<exists>i\<in>set xs. foldl ?step (Num (g x), int x) xs = (Num (g i), int i) \<and> g x < g i
            \<and> (\<forall>j\<in>set xs. g j \<le> g i) \<and> (\<forall>j\<in>set xs. j < i \<longrightarrow> g j < g i)"
      then obtain i where i: "i \<in> set xs" "foldl ?step (Num (g x), int x) xs = (Num (g i), int i)"
        "g x < g i" "\<forall>j\<in>set xs. g j \<le> g i" "\<forall>j\<in>set xs. j < i \<longrightarrow> g j < g i"
        by blast
      then show ?thesis using st True by (intro disjI2 bexI[of _ i]) auto
    qed
  next
    case False
    have st: "foldl ?step (Num a, m) (x # xs) = foldl ?step (Num a, m) xs"
      using False fx by simp
    from Cons.IH[OF srt fs, of a m]
    show ?thesis
    proof
      assume "foldl ?step (Num a, m) xs = (Num a, m) \<and> (\<forall>j\<in>set xs. g j \<le> a)"
      then show ?thesis using st False by auto
    next
      assume "\<exists>i\<in>set xs. foldl ?step (Num a, m) xs = (Num (g i), int i) \<and> a < g i
            \<and> (\<forall>j\<in>set xs. g j \<le> g i) \<and> (\<forall>j\<in>set xs. j < i \<longrightarrow> g j < g i)"
      then obtain i where i: "i \<in> set xs" "foldl ?step (Num a, m) xs = (Num (g i), int i)"
        "a < g i" "\<forall>j\<in>set xs. g j \<le> g i" "\<forall>j\<in>set xs. j < i \<longrightarrow> g j < g i"
        by blast
      then show ?thesis using st False by (intro disjI2 bexI[of _ i]) auto
    qed
  qed
qed

lemma sorted_emptyCells: "sorted_wrt (<) (emptyCells b)"
  by (simp add: emptyCells_def sorted_wrt_filter)

lemma getBestMove_none: "emptyCells b = [] \<Longrightarrow> getBestMove b sz = - 1"
  by (simp add: getBestMove_def foldl_best_filter emptyCells_def[symmetric])

lemma getBestMove_first_max:
  assumes "emptyCells b \<noteq> []"
  shows "\<exists>i\<in>set (emptyCells b). getBestMove b sz = int i
           \<and> (\<forall>j\<in>set (emptyCells b).
                 minimaxValue (b[j := Some SymO]) sz 0 False \<le> minimaxValue (b[i := Some SymO]) sz 0 False)
           \<and> (\<forall>j\<in>set (emptyCells b). j < i \<longrightarrow>
                 minimaxValue (b[j := Some SymO]) sz 0 False < minimaxValue (b[i := Some SymO]) sz 0 False)"
proof -
  let ?f = "\<lambda>i. minimax (b[i := Some SymO]) sz 0 False"
  let ?g = "\<lambda>i. minimaxValue (b[i := Some SymO]) sz 0 False"
  let ?step = "\<lambda>(bestScore, bestMove) i.
            if jsGreater (?f i) bestScore then (?f i, int i) else (bestScore, bestMove)"
  obtain x xs where xs: "emptyCells b = x # xs" using assms by (cases "emptyCells b") auto
  have fg: "\<forall>i\<in>set (x # xs). ?f i = Num (?g i)" by (simp add: minimax_refines)
  have srt: "sorted_wrt (<) (x # xs)" using sorted_emptyCells[of b] xs by simp
  then have srt': "sorted_wrt (<) xs" and lt: "\<forall>j\<in>set xs. x < j" by auto
  have gb: "getBestMove b sz = snd (foldl ?step (NegInf, - 1) (x # xs))"
    by (simp add: getBestMove_def foldl_best_filter emptyCells_def[symmetric] xs)
  have st: "foldl ?step (NegInf, - 1) (x # xs) = foldl ?step (Num (?g x), int x) xs"
    by (simp add: minimax_refines)
  from foldl_best_Num[OF srt', of ?f ?g "?g x" "int x"] fg
  have "(foldl ?step (Num (?g x), int x) xs = (Num (?g x), int x) \<and> (\<forall>j\<in>set xs. ?g j \<le> ?g x))
       \<or> (\<exists>i\<in>set xs. foldl ?step (Num (?g x), int x) xs = (Num (?g i), int i) \<and> ?g x < ?g i
            \<and> (\<forall>j\<in>set xs. ?g j \<le> ?g i) \<and> (\<forall>j\<in>set xs. j < i \<longrightarrow> ?g j < ?g i))"
    by simp
  then show ?thesis
  proof
    assume u: "foldl ?step (Num (?g x), int x) xs = (Num (?g x), int x) \<and> (\<forall>j\<in>set xs. ?g j \<le> ?g x)"
    have "\<forall>j\<in>set (x # xs). j < x \<longrightarrow> ?g j < ?g x" using lt by auto
    then show ?thesis unfolding xs using u gb st by (intro bexI[of _ x]) auto
  next
    assume "\<exists>i\<in>set xs. foldl ?step (Num (?g x), int x) xs = (Num (?g i), int i) \<and> ?g x < ?g i
            \<and> (\<forall>j\<in>set xs. ?g j \<le> ?g i) \<and> (\<forall>j\<in>set xs. j < i \<longrightarrow> ?g j < ?g i)"
    then obtain i where i: "i \<in> set xs" "foldl ?step (Num (?g x), int x) xs = (Num (?g i), int i)"
        "?g x < ?g i" "\<forall>j\<in>set xs. ?g j \<le> ?g i" "\<forall>j\<in>set xs. j < i \<longrightarrow> ?g j < ?g i"
      by blast
    then show ?thesis unfolding xs using gb st by (intro bexI[of _ i]) auto
  qed
qed

text \<open>
  Claim C8. The search of the hard AI returns the minimax value of the position: a win
  of the AI at depth \<open>d\<close> is worth \<open>10 - d\<close>, a win of the opponent \<open>d - 10\<close>, a draw
  \<open>0\<close>, an open position the maximum (AI to move) or minimum (opponent to move) over
  all empty cells, searched down to the terminal positions. \<open>getBestMove\<close> returns the
  first empty cell in index order whose value is maximal, and \<open>-1\<close> on a board without
  an empty cell.
\<close>

theorem hard_ai_minimax:
  "minimax b sz depth m = Num (minimaxValue b sz depth m)
   \<and> (evaluate b sz = Win SymO \<longrightarrow> minimax b sz depth m = Num (10 - depth))
   \<and> (evaluate b sz = Win SymX \<longrightarrow> minimax b sz depth m = Num (depth - 10))
   \<and> (evaluate b sz = Draw \<longrightarrow> minimax b sz depth m = Num 0)
   \<and> (evaluate b sz = Ongoing \<longrightarrow>
        minimax b sz depth True
          = Num (Max ((\<lambda>i. minimaxValue (b[i := Some SymO]) sz (depth + 1) False) ` set (emptyCells b)))
        \<and> minimax b sz depth False
          = Num (Min ((\<lambda>i. minimaxValue (b[i := Some SymX]) sz (depth + 1) True) ` set (emptyCells b))))
   \<and> (emptyCells b = [] \<longrightarrow> getBestMove b sz = - 1)
   \<and> (emptyCells b \<noteq> [] \<longrightarrow>
        (\<exists>i\<in>set (emptyCells b). getBestMove b sz = int i
           \<and> (\<forall>j\<in>set (emptyCells b).
                 minimaxValue (b[j := Some SymO]) sz 0 False \<le> minimaxValue (b[i := Some SymO]) sz 0 False)
           \<and> (\<forall>j\<in>set (emptyCells b). j < i \<longrightarrow>
                 minimaxValue (b[j := Some SymO]) sz 0 False < minimaxValue (b[i := Some SymO]) sz 0 False)))"
proof -
  have r: "\<And>m. minimax b sz depth m = Num (minimaxValue b sz depth m)"
    by (rule minimax_refines)
  have o: "evaluate b sz = Win SymO \<longrightarrow> minimax b sz depth m = Num (10 - depth)"
    by (simp add: r minimaxValue.simps[of b])
  have x: "evaluate b sz = Win SymX \<longrightarrow> minimax b sz depth m = Num (depth - 10)"
    by (simp add: r minimaxValue.simps[of b])
  have d: "evaluate b sz = Draw \<longrightarrow> minimax b sz depth m = Num 0"
    by (simp add: r minimaxValue.simps[of b])
  have g: "evaluate b sz = Ongoing \<longrightarrow>
        minimax b sz depth True
          = Num (Max ((\<lambda>i. minimaxValue (b[i := Some SymO]) sz (depth + 1) False) ` set (emptyCells b)))
        \<and> minimax b sz depth False
          = Num (Min ((\<lambda>i. minimaxValue (b[i := Some SymX]) sz (depth + 1) True) ` set (emptyCells b)))"
    by (simp add: r minimaxValue.simps[of b])
  show ?thesis
    using r[of m] o x d g getBestMove_none[of b sz] getBestMove_first_max[of b sz] by blast
qed

theorem hard_ai_minimax_witness:
  "getBestMove aiBoard 3 = 2
   \<and> minimax (aiBoard[2 := Some SymO]) 3 0 False = Num 10
   \<and> minimax aiBoard 3 0 True = Num 9
   \<and> minimax (aiBoard[5 := Some SymX]) 3 1 True = Num (- 9)"
proof -
  have e0: "emptyCells aiBoard \<noteq> []" by code_simp
  have es: "emptyCells aiBoard = [2, 5, 6, 7]" by code_simp
  have w: "evaluate (aiBoard[2 := Some SymO]) 3 = Win SymO" by code_simp
  have l: "evaluate (aiBoard[5 := Some SymX]) 3 = Win SymX" by code_simp
  have v: "minimaxValue aiBoard 3 0 True = 9" by code_simp
  have v2: "minimaxValue (aiBoard[2 := Some SymO]) 3 0 False = 10" by code_simp
  have v5: "minimaxValue (aiBoard[5 := Some SymO]) 3 0 False < 10" by code_simp
  have v6: "minimaxValue (aiBoard[6 := Some SymO]) 3 0 False < 10" by code_simp
  have v7: "minimaxValue (aiBoard[7 := Some SymO]) 3 0 False < 10" by code_simp
  from hard_ai_minimax[of aiBoard 3 0 True] e0
  obtain i where i: "i \<in> set (emptyCells aiBoard)" "getBestMove aiBoard 3 = int i"
    "\<forall>j\<in>set (emptyCells aiBoard).
        minimaxValue (aiBoard[j := Some SymO]) 3 0 False \<le> minimaxValue (aiBoard[i := Some SymO]) 3 0 False"
    by blast
  have "i = 2" using i(1) i(3) es v2 v5 v6 v7 by auto
  then have a: "getBestMove aiBoard 3 = 2" using i(2) by simp
  have "minimax (aiBoard[2 := Some SymO]) 3 0 False = Num (10 - 0)"
    using hard_ai_minimax[of "aiBoard[2 := Some SymO]" 3 0 False] w by blast
  then have b: "minimax (aiBoard[2 := Some SymO]) 3 0 False = Num 10" by simp
  have "minimax aiBoard 3 0 True = Num (minimaxValue aiBoard 3 0 True)"
    using hard_ai_minimax[of aiBoard 3 0 True] by blast
  then have c: "minimax aiBoard 3 0 True = Num 9" using v by simp
  have "minimax (aiBoard[5 := Some SymX]) 3 1 True = Num (1 - 10)"
    using hard_ai_minimax[of "aiBoard[5 := Some SymX]" 3 1 True] l by blast
  then have d: "minimax (aiBoard[5 := Some SymX]) 3 1 True = Num (- 9)" by simp
  show ?thesis using a b c d by simp
qed


section \<open>Streaks and card grants\<close>

lemma find_updateFirst_same:
  "(\<And>r. P r \<Longrightarrow> P (f r)) \<Longrightarrow> find P (updateFirst P f rs) = map_option f (find P rs)"
  by (induction rs) auto

lemma find_updateFirst_other:
  "(\<And>r. P r \<Longrightarrow> \<not> Q r) \<Longrightarrow> (\<And>r. P r \<Longrightarrow> \<not> Q (f r)) \<Longrightarrow> find Q (updateFirst P f rs) = find Q rs"
  by (induction rs) auto

lemma find_snoc:
  "find P (rs @ [r]) = (case find P rs of Some x \<Rightarrow> Some x | None \<Rightarrow> if P r then Some r else None)"
  by (induction rs) auto

lemma findCard_type: "findCard d t = Some c \<Longrightarrow> c_type c = t"
  by (auto simp: findCard_def dest: find_Some_iff[THEN iffD1])

lemma find_holds_same:
  assumes "\<And>r. uc_userId (f r) = uc_userId r" "\<And>r. uc_cardType (f r) = uc_cardType r"
  shows "find (holds u t) (updateFirst (holds u t) f rs) = map_option f (find (holds u t) rs)"
  by (rule find_updateFirst_same) (simp add: holds_def assms)

lemma find_holds_other:
  assumes "\<And>r. uc_userId (f r) = uc_userId r" "\<And>r. uc_cardType (f r) = uc_cardType r"
    and "\<not> (u' = u \<and> t' = t)"
  shows "find (holds u' t') (updateFirst (holds u t) f rs) = find (holds u' t') rs"
  by (rule find_updateFirst_other) (use assms in \<open>auto simp: holds_def\<close>)

lemma heldQuantity_awardCard:
  assumes "findCard d t \<noteq> None"
  shows "heldQuantity (awardCard d userId t) userId' t'
       = heldQuantity d userId' t' + (if userId' = userId \<and> t' = t then 1 else 0)"
proof -
  obtain c where c: "findCard d t = Some c" using assms by auto
  have ct: "c_type c = t" using c by (rule findCard_type)
  show ?thesis
  proof (cases "findUserCard d userId t")
    case None
    then show ?thesis
      using c ct
      by (auto simp: awardCard_def heldQuantity_def findUserCard_def find_snoc holds_def
               split: option.splits)
  next
    case (Some e)
    show ?thesis
    proof (cases "userId' = userId \<and> t' = t")
      case True
      then show ?thesis
        using c ct Some
        by (simp add: awardCard_def heldQuantity_def findUserCard_def find_holds_same)
    next
      case False
      then show ?thesis
        using c ct Some
        by (simp add: awardCard_def heldQuantity_def findUserCard_def find_holds_other)
    qed
  qed
qed

lemma users_awardCard: "users (awardCard d userId t) = users d"
  by (simp add: awardCard_def split: option.splits)

lemma userCards_loss_draw:
  "result \<noteq> ResultWin \<Longrightarrow> userCards (updateUserStats d userId result) = userCards d"
  by (cases result) (simp_all add: updateUserStats_def split: option.splits)

lemma findUser_updateUserStats_win:
  assumes "findUser d userId = Some u"
  shows "findUser (updateUserStats d userId ResultWin) userId
           = Some (u\<lparr>wins := wins u + 1, streak := streak u + 1\<rparr>)"
  using assms
  by (simp add: updateUserStats_def Let_def findUser_def users_awardCard find_updateFirst_same)

lemma findUser_updateUserStats_loss:
  assumes "findUser d userId = Some u"
  shows "findUser (updateUserStats d userId ResultLoss) userId
           = Some (u\<lparr>losses := losses u + 1, streak := 0\<rparr>)"
  using assms
  by (simp add: updateUserStats_def Let_def findUser_def find_updateFirst_same)

lemma findUser_updateUserStats_draw:
  assumes "findUser d userId = Some u"
  shows "findUser (updateUserStats d userId ResultDraw) userId
           = Some (u\<lparr>draws := draws u + 1, streak := 0\<rparr>)"
  using assms
  by (simp add: updateUserStats_def Let_def findUser_def find_updateFirst_same)

lemma heldQuantity_users_update:
  "heldQuantity (d\<lparr>users := us\<rparr>) userId t = heldQuantity d userId t"
  by (simp add: heldQuantity_def findUserCard_def)

lemma heldQuantity_updateUserStats_win:
  assumes "findUser d userId = Some u"
    and "findCard d ''PROTECTION'' \<noteq> None" "findCard d ''GIANT'' \<noteq> None"
  shows "heldQuantity (updateUserStats d userId ResultWin) userId' t
       = heldQuantity d userId' t
         + (if userId' = userId \<and> (t = ''PROTECTION'' \<and> streak u + 1 = 3
                                      \<or> t = ''GIANT'' \<and> streak u + 1 = 5)
            then 1 else 0)"
proof -
  consider (three) "streak u + 1 = 3" | (five) "streak u + 1 = 5"
    | (neither) "streak u + 1 \<noteq> 3" "streak u + 1 \<noteq> 5"
    by blast
  then show ?thesis
  proof cases
    case three
    then have "updateUserStats d userId ResultWin
        = (awardCard d userId ''PROTECTION'')\<lparr>users := users (updateUserStats d userId ResultWin)\<rparr>"
      using assms(1) by (simp add: updateUserStats_def Let_def)
    then have "heldQuantity (updateUserStats d userId ResultWin) userId' t
        = heldQuantity (awardCard d userId ''PROTECTION'') userId' t"
      by (metis heldQuantity_users_update)
    then show ?thesis using three assms(2) by (simp add: heldQuantity_awardCard)
  next
    case five
    then have "updateUserStats d userId ResultWin
        = (awardCard d userId ''GIANT'')\<lparr>users := users (updateUserStats d userId ResultWin)\<rparr>"
      using assms(1) by (simp add: updateUserStats_def Let_def)
    then have "heldQuantity (updateUserStats d userId ResultWin) userId' t
        = heldQuantity (awardCard d userId ''GIANT'') userId' t"
      by (metis heldQuantity_users_update)
    then show ?thesis using five assms(3) by (simp add: heldQuantity_awardCard)
  next
    case neither
    then have "updateUserStats d userId ResultWin
        = d\<lparr>users := users (updateUserStats d userId ResultWin)\<rparr>"
      using assms(1) by (simp add: updateUserStats_def Let_def)
    then have "heldQuantity (updateUserStats d userId ResultWin) userId' t = heldQuantity d userId' t"
      by (metis heldQuantity_users_update)
    then show ?thesis using neither by simp
  qed
qed

lemma createInitialCards_fresh:
  "map c_type (cards (createInitialCards \<lparr>users = us, cards = [], userCards = ucs\<rparr>))
     = map fst CARD_TYPES"
  by (simp add: createInitialCards_def CARD_TYPES_def)

text \<open>
  Claim C9. For a user the store knows and a catalogue that holds the Protection and
  Giant cards (as \<open>createInitialCards\<close> leaves it): recording a win adds one to the wins
  and to the streak, and the user's holding of Protection grows by one exactly when the
  new streak is 3, that of Giant exactly when it is 5; no other holding of any user
  changes. Recording a loss or a draw sets the streak to 0 and changes no holding.
\<close>

theorem streak_card_grants:
  assumes "findUser d userId = Some u"
    and "findCard d ''PROTECTION'' \<noteq> None" "findCard d ''GIANT'' \<noteq> None"
  shows "findUser (updateUserStats d userId ResultWin) userId
           = Some (u\<lparr>wins := wins u + 1, streak := streak u + 1\<rparr>)
       \<and> heldQuantity (updateUserStats d userId ResultWin) userId' t
           = heldQuantity d userId' t
             + (if userId' = userId \<and> (t = ''PROTECTION'' \<and> streak u + 1 = 3
                                          \<or> t = ''GIANT'' \<and> streak u + 1 = 5)
                then 1 else 0)
       \<and> findUser (updateUserStats d userId ResultLoss) userId
           = Some (u\<lparr>losses := losses u + 1, streak := 0\<rparr>)
       \<and> findUser (updateUserStats d userId ResultDraw) userId
           = Some (u\<lparr>draws := draws u + 1, streak := 0\<rparr>)
       \<and> userCards (updateUserStats d userId ResultLoss) = userCards d
       \<and> userCards (updateUserStats d userId ResultDraw) = userCards d"
  using findUser_updateUserStats_win[OF assms(1)] heldQuantity_updateUserStats_win[OF assms]
    findUser_updateUserStats_loss[OF assms(1)] findUser_updateUserStats_draw[OF assms(1)]
  by (simp add: userCards_loss_draw)

theorem streak_card_grants_witness:
  "heldQuantity (updateUserStats (streakStore 2) ''alice'' ResultWin) ''alice'' ''PROTECTION'' = 1
   \<and> heldQuantity (updateUserStats (streakStore 2) ''alice'' ResultWin) ''alice'' ''GIANT'' = 0
   \<and> heldQuantity (updateUserStats (streakStore 4) ''alice'' ResultWin) ''alice'' ''GIANT'' = 1
   \<and> heldQuantity (updateUserStats (streakStore 3) ''alice'' ResultWin) ''alice'' ''PROTECTION'' = 0
   \<and> map_option streak (findUser (updateUserStats (streakStore 2) ''alice'' ResultWin) ''alice'') = Some 3
   \<and> map_option streak (findUser (updateUserStats (streakStore 2) ''alice'' ResultLoss) ''alice'') = Some 0"
proof -
  have u: "\<And>n. findUser (streakStore n) ''alice''
      = Some \<lparr>wins = n, losses = 0, draws = 0, streak = n, u_id = ''alice'', u_name = ''Alice''\<rparr>"
    by (simp add: streakStore_def findUser_def)
  have p: "\<And>n. findCard (streakStore n) ''PROTECTION'' \<noteq> None"
    by (simp add: streakStore_def findCard_def freshStore_def createInitialCards_def CARD_TYPES_def)
  have g: "\<And>n. findCard (streakStore n) ''GIANT'' \<noteq> None"
    by (simp add: streakStore_def findCard_def freshStore_def createInitialCards_def CARD_TYPES_def)
  have h: "\<And>n t. heldQuantity (streakStore n) ''alice'' t = 0"
    by (simp add: streakStore_def heldQuantity_def findUserCard_def freshStore_def
          createInitialCards_def CARD_TYPES_def)
  show ?thesis
    using streak_card_grants[OF u p g, of 2 "''alice''" "''PROTECTION''"]
      streak_card_grants[OF u p g, of 2 "''alice''" "''GIANT''"]
      streak_card_grants[OF u p g, of 4 "''alice''" "''GIANT''"]
      streak_card_grants[OF u p g, of 3 "''alice''" "''PROTECTION''"]
    by (simp add: h)
qed


section \<open>The move pipeline: order of the checks and card consumption\<close>

lemma useUserCard_consumes:
  assumes "useUserCard d userId cardType = Some d1"
  shows "cardConsumed d d1 userId cardType \<and> users d1 = users d \<and> cards d1 = cards d"
proof -
  obtain c where c: "findCard d cardType = Some c"
    using assms by (auto simp: useUserCard_def split: option.splits)
  have ct: "c_type c = cardType" using c by (rule findCard_type)
  obtain uc where uc: "findUserCard d userId cardType = Some uc"
    using assms c ct by (auto simp: useUserCard_def split: option.splits)
  have q: "0 < quantity uc"
    using assms c ct uc by (auto simp: useUserCard_def split: if_splits)
  have d1: "d1 = d\<lparr>userCards := updateFirst (holds userId cardType)
                      (\<lambda>r. r\<lparr>quantity := quantity uc - 1, used := used uc + 1\<rparr>) (userCards d)\<rparr>"
    using assms c ct uc q by (auto simp: useUserCard_def)
  have "findUserCard d1 userId cardType
      = Some (uc\<lparr>quantity := quantity uc - 1, used := used uc + 1\<rparr>)"
    using uc unfolding d1 by (simp add: findUserCard_def find_holds_same)
  then show ?thesis using uc q d1 by (simp add: cardConsumed_def)
qed

lemma useUserCard_None:
  "useUserCard d userId cardType = None \<longleftrightarrow>
     findCard d cardType = None \<or> findUserCard d userId cardType = None
     \<or> (\<exists>uc. findUserCard d userId cardType = Some uc \<and> quantity uc \<le> 0)"
  by (auto simp: useUserCard_def split: option.splits dest: findCard_type)

lemma applyCardEffect_frame:
  assumes "applyCardEffect room brd rid socketId position cardType = (room1, brd1, out)"
  shows "status room1 = status room \<and> winner room1 = winner room
       \<and> currentTurn room1 = currentTurn room \<and> moveHistory room1 = moveHistory room
       \<and> players room1 = players room \<and> boardSize room1 = boardSize room
       \<and> roomId room1 = roomId room
       \<and> (\<forall>a e. (a, e) \<in> set out \<longrightarrow> a = ToRoom rid \<and> (\<exists>nm. e = CardUsed nm socketId))
       \<and> (cardType \<noteq> ''BLOCK'' \<longrightarrow> blockedCells room1 = blockedCells room)
       \<and> (cardType = ''BLOCK'' \<longrightarrow> set (blockedCells room1) = insert position (set (blockedCells room))
            \<and> brd1 = brd \<and> boardState room1 = boardState room)
       \<and> (cardType \<noteq> ''SWAP_CELL'' \<longrightarrow> brd1 = brd \<and> boardState room1 = boardState room)"
  using assms
  by (auto simp: applyCardEffect_def Let_def split: if_splits option.splits list.splits)

lemma placeMark_invalid:
  "invalidTarget room brd position \<Longrightarrow>
   placeMark st d room brd out rid now socketId position
     = (st\<lparr>gameRooms := AList.update rid room (gameRooms st), db := d\<rparr>,
        out @ [(ToSocket socketId, Error ''Invalid move'')])"
  by (simp add: placeMark_def invalidTarget_def)

lemma placeMark_valid_no_error:
  assumes "\<not> invalidTarget room brd position"
    and "(a, Error msg) \<in> set (snd (placeMark st d room brd out rid now socketId position))"
  shows "(a, Error msg) \<in> set out"
  using assms
  by (auto simp: placeMark_def invalidTarget_def Let_def split: option.splits outcome.splits)

text \<open>
  Claim C3. For a room that exists, \<open>makeMove\<close> tests in this order, and the first
  failing test decides: the status is \<open>PLAYING\<close> (else "Game is not active"), the
  acting socket holds the turn (else "Not your turn"), and, when a card type is given,
  \<open>useUserCard\<close> succeeds (else "Card not available"); each of these failures leaves
  the whole state as it was. \<open>useUserCard\<close> fails exactly when the card type is unknown,
  the user has no holding of it, or the holding's count is not positive. When it
  succeeds the holding's count is one less and its used count one more, the card effect
  and the placement run on the store with the card consumed, and a move that then fails
  as invalid ends with that store: the card is not given back.
\<close>

theorem makeMove_precondition_order:
  assumes "map_of (gameRooms st) rid = Some room"
  shows "(status room \<noteq> PLAYING \<longrightarrow>
            makeMove st socketId now (rid, position, cardType)
              = (st, [(ToSocket socketId, Error ''Game is not active'')]))
       \<and> (status room = PLAYING \<and> currentTurn room \<noteq> socketId \<longrightarrow>
            makeMove st socketId now (rid, position, cardType)
              = (st, [(ToSocket socketId, Error ''Not your turn'')]))
       \<and> (status room = PLAYING \<and> currentTurn room = socketId \<and> truthy cardType
            \<and> useUserCard (db st) socketId (the cardType) = None \<longrightarrow>
            makeMove st socketId now (rid, position, cardType)
              = (st, [(ToSocket socketId, Error ''Card not available'')]))
       \<and> (useUserCard (db st) socketId ct = None \<longleftrightarrow>
            findCard (db st) ct = None \<or> findUserCard (db st) socketId ct = None
            \<or> (\<exists>uc. findUserCard (db st) socketId ct = Some uc \<and> quantity uc \<le> 0))
       \<and> (status room = PLAYING \<and> currentTurn room = socketId \<and> truthy cardType
            \<and> useUserCard (db st) socketId (the cardType) = Some d1 \<longrightarrow>
            cardConsumed (db st) d1 socketId (the cardType)
            \<and> makeMove st socketId now (rid, position, cardType)
                = (case applyCardEffect room (boardState room) rid socketId position (the cardType) of
                     (room1, brd1, out) \<Rightarrow> placeMark st d1 room1 brd1 out rid now socketId position)
            \<and> ((ToSocket socketId, Error ''Invalid move'')
                  \<in> set (snd (makeMove st socketId now (rid, position, cardType)))
                \<longrightarrow> db (fst (makeMove st socketId now (rid, position, cardType))) = d1))"
proof -
  have a: "status room \<noteq> PLAYING \<longrightarrow>
            makeMove st socketId now (rid, position, cardType)
              = (st, [(ToSocket socketId, Error ''Game is not active'')])"
    using assms by (simp add: makeMove_def)
  have b: "status room = PLAYING \<and> currentTurn room \<noteq> socketId \<longrightarrow>
            makeMove st socketId now (rid, position, cardType)
              = (st, [(ToSocket socketId, Error ''Not your turn'')])"
    using assms by (simp add: makeMove_def)
  have c: "status room = PLAYING \<and> currentTurn room = socketId \<and> truthy cardType
            \<and> useUserCard (db st) socketId (the cardType) = None \<longrightarrow>
            makeMove st socketId now (rid, position, cardType)
              = (st, [(ToSocket socketId, Error ''Card not available'')])"
    using assms by (simp add: makeMove_def)
  have e: "status room = PLAYING \<and> currentTurn room = socketId \<and> truthy cardType
            \<and> useUserCard (db st) socketId (the cardType) = Some d1 \<longrightarrow>
            cardConsumed (db st) d1 socketId (the cardType)
            \<and> makeMove st socketId now (rid, position, cardType)
                = (case applyCardEffect room (boardState room) rid socketId position (the cardType) of
                     (room1, brd1, out) \<Rightarrow> placeMark st d1 room1 brd1 out rid now socketId position)
            \<and> ((ToSocket socketId, Error ''Invalid move'')
                  \<in> set (snd (makeMove st socketId now (rid, position, cardType)))
                \<longrightarrow> db (fst (makeMove st socketId now (rid, position, cardType))) = d1)"
  proof (intro impI, elim conjE)
    assume h: "status room = PLAYING" "currentTurn room = socketId" "truthy cardType"
      "useUserCard (db st) socketId (the cardType) = Some d1"
    obtain room1 brd1 out where eff:
      "applyCardEffect room (boardState room) rid socketId position (the cardType) = (room1, brd1, out)"
      by (cases "applyCardEffect room (boardState room) rid socketId position (the cardType)") auto
    have mm: "makeMove st socketId now (rid, position, cardType)
        = placeMark st d1 room1 brd1 out rid now socketId position"
      using assms h eff by (simp add: makeMove_def)
    have noerr: "(ToSocket socketId, Error ''Invalid move'') \<notin> set out"
      using applyCardEffect_frame[OF eff] by auto
    have ref: "(ToSocket socketId, Error ''Invalid move'')
                  \<in> set (snd (placeMark st d1 room1 brd1 out rid now socketId position))
                \<longrightarrow> db (fst (placeMark st d1 room1 brd1 out rid now socketId position)) = d1"
    proof
      assume m: "(ToSocket socketId, Error ''Invalid move'')
                  \<in> set (snd (placeMark st d1 room1 brd1 out rid now socketId position))"
      have "invalidTarget room1 brd1 position"
        using placeMark_valid_no_error[OF _ m] noerr by blast
      then show "db (fst (placeMark st d1 room1 brd1 out rid now socketId position)) = d1"
        by (simp add: placeMark_invalid)
    qed
    show "cardConsumed (db st) d1 socketId (the cardType)
            \<and> makeMove st socketId now (rid, position, cardType)
                = (case applyCardEffect room (boardState room) rid socketId position (the cardType) of
                     (room1, brd1, out) \<Rightarrow> placeMark st d1 room1 brd1 out rid now socketId position)
            \<and> ((ToSocket socketId, Error ''Invalid move'')
                  \<in> set (snd (makeMove st socketId now (rid, position, cardType)))
                \<longrightarrow> db (fst (makeMove st socketId now (rid, position, cardType))) = d1)"
      using useUserCard_consumes[OF h(4)] mm eff ref by simp
  qed
  show ?thesis using a b c e useUserCard_None[of "db st" socketId ct] by blast
qed

theorem makeMove_precondition_order_witness:
  "makeMove roomOpen ''s2'' 0 (''room'', 4, Some ''BLOCK'')
     = (roomOpen, [(ToSocket ''s2'', Error ''Game is not active'')])
   \<and> makeMove roomPlaying ''s2'' 0 (''room'', 4, Some ''BLOCK'')
     = (roomPlaying, [(ToSocket ''s2'', Error ''Not your turn'')])
   \<and> makeMove roomPlaying ''s1'' 0 (''room'', 4, Some ''SWAP_CELL'')
     = (roomPlaying, [(ToSocket ''s1'', Error ''Card not available'')])
   \<and> cardConsumed (db roomPlaying)
         (db (fst (makeMove roomPlaying ''s1'' 0 (''room'', 4, Some ''BLOCK'')))) ''s1'' ''BLOCK''"
proof -
  have o: "map_of (gameRooms roomOpen) ''room'' = Some (roomOf roomOpen)"
    by code_simp
  have p: "map_of (gameRooms roomPlaying) ''room'' = Some (roomOf roomPlaying)"
    by code_simp
  have so: "status (roomOf roomOpen) \<noteq> PLAYING" by code_simp
  have sp: "status (roomOf roomPlaying) = PLAYING" by code_simp
  have t: "currentTurn (roomOf roomPlaying) = ''s1''" by code_simp
  have t2: "currentTurn (roomOf roomPlaying) \<noteq> ''s2''" by code_simp
  have tr: "truthy (Some ''BLOCK'')" "truthy (Some ''SWAP_CELL'')" by (simp_all add: truthy_def)
  have un: "useUserCard (db roomPlaying) ''s1'' (the (Some ''SWAP_CELL'')) = None" by code_simp
  obtain d1 where d1: "useUserCard (db roomPlaying) ''s1'' (the (Some ''BLOCK'')) = Some d1"
    by (cases "useUserCard (db roomPlaying) ''s1'' (the (Some ''BLOCK''))") (code_simp, blast)
  have inv: "(ToSocket ''s1'', Error ''Invalid move'')
      \<in> set (snd (makeMove roomPlaying ''s1'' 0 (''room'', 4, Some ''BLOCK'')))"
    by code_simp
  have a: "makeMove roomOpen ''s2'' 0 (''room'', 4, Some ''BLOCK'')
     = (roomOpen, [(ToSocket ''s2'', Error ''Game is not active'')])"
    using makeMove_precondition_order[OF o, of "''s2''" 0 4 "Some ''BLOCK''"] so by blast
  have b: "makeMove roomPlaying ''s2'' 0 (''room'', 4, Some ''BLOCK'')
     = (roomPlaying, [(ToSocket ''s2'', Error ''Not your turn'')])"
    using makeMove_precondition_order[OF p, of "''s2''" 0 4 "Some ''BLOCK''"] sp t2 by blast
  have c: "makeMove roomPlaying ''s1'' 0 (''room'', 4, Some ''SWAP_CELL'')
     = (roomPlaying, [(ToSocket ''s1'', Error ''Card not available'')])"
    using makeMove_precondition_order[OF p, of "''s1''" 0 4 "Some ''SWAP_CELL''"] sp t tr un by blast
  have "cardConsumed (db roomPlaying) d1 ''s1'' (the (Some ''BLOCK''))
      \<and> db (fst (makeMove roomPlaying ''s1'' 0 (''room'', 4, Some ''BLOCK''))) = d1"
    using makeMove_precondition_order[OF p, of "''s1''" 0 4 "Some ''BLOCK''" "''BLOCK''" d1]
      sp t tr(1) d1 inv
    by blast
  then have d: "cardConsumed (db roomPlaying) d1 ''s1'' ''BLOCK''
      \<and> db (fst (makeMove roomPlaying ''s1'' 0 (''room'', 4, Some ''BLOCK''))) = d1"
    by simp
  show ?thesis using a b c d by simp
qed

section \<open>Failures of a move\<close>








section \<open>Card effects: SwapCell and DoubleMove\<close>

lemma placeMark_db_irrelevant:
  "placeMark (st\<lparr>db := d0\<rparr>) d room brd out rid now socketId position
     = placeMark st d room brd out rid now socketId position"
  by (simp add: placeMark_def Let_def split: option.splits outcome.splits)

lemma placeMark_prefix:
  "placeMark st d room brd out rid now socketId position
     = (fst (placeMark st d room brd [] rid now socketId position),
        out @ snd (placeMark st d room brd [] rid now socketId position))"
  by (simp add: placeMark_def Let_def split: option.splits outcome.splits)

lemma makeMove_no_card:
  assumes "map_of (gameRooms st) rid = Some room" "status room = PLAYING"
    "currentTurn room = socketId"
  shows "makeMove (st\<lparr>db := d1\<rparr>) socketId now (rid, position, None)
       = placeMark st d1 room (boardState room) [] rid now socketId position"
  using assms by (simp add: makeMove_def truthy_def placeMark_db_irrelevant)

lemma makeMove_with_card:
  assumes "map_of (gameRooms st) rid = Some room" "status room = PLAYING"
    "currentTurn room = socketId" "cardType \<noteq> []"
    "useUserCard (db st) socketId cardType = Some d1"
  shows "makeMove st socketId now (rid, position, Some cardType)
       = (case applyCardEffect room (boardState room) rid socketId position cardType of
            (room1, brd1, out) \<Rightarrow> placeMark st d1 room1 brd1 out rid now socketId position)"
  using assms by (simp add: makeMove_def truthy_def)

lemma filter_first:
  assumes "k < n" "P k" "\<forall>j<k. \<not> P j"
  shows "\<exists>rest. filter P [0..<n] = k # rest"
proof -
  have "[0..<n] = [0..<k] @ k # [Suc k..<n]"
    using assms(1) by (metis le_add1 less_imp_add_positive upt_add_eq_append upt_conv_Cons zero_le
        add.commute add_0 less_or_eq_imp_le)
  moreover have "filter P [0..<k] = []" using assms(3) by (auto simp: filter_empty_conv)
  ultimately show ?thesis using assms(2) by simp
qed

lemma filter_none:
  "list_all (\<lambda>c. c \<noteq> Some s) b \<Longrightarrow> filter (\<lambda>i. b ! i = Some s) [0..<length b] = []"
  by (auto simp: filter_empty_conv list_all_iff)


lemma swap_noop:
  assumes "find (\<lambda>p. p_id p \<noteq> socketId) (players room) = None
           \<or> (find (\<lambda>p. p_id p \<noteq> socketId) (players room) = Some opponent
               \<and> (read brd position \<noteq> Some (Some (p_symbol opponent))
                    \<or> find (\<lambda>p. p_id p = socketId) (players room) = None
                    \<or> (find (\<lambda>p. p_id p = socketId) (players room) = Some me
                        \<and> noMark brd (p_symbol me))))"
  shows "applyCardEffect room brd rid socketId position ''SWAP_CELL'' = (room, brd, [])"
  using assms by (auto simp: applyCardEffect_def noMark_def filter_none)

lemma swap_exchange:
  assumes "find (\<lambda>p. p_id p \<noteq> socketId) (players room) = Some opponent"
    "read brd position = Some (Some (p_symbol opponent))"
    "find (\<lambda>p. p_id p = socketId) (players room) = Some me"
    "firstMarkAt brd (p_symbol me) k"
  shows "applyCardEffect room brd rid socketId position ''SWAP_CELL''
       = (room\<lparr>boardState := brd[nat position := Some (p_symbol me), k := Some (p_symbol opponent)]\<rparr>,
          brd[nat position := Some (p_symbol me), k := Some (p_symbol opponent)],
          [(ToRoom rid, CardUsed ''Swap Cell'' socketId)])"
proof -
  have k: "k < length brd" "brd ! k = Some (p_symbol me)" "\<forall>j<k. brd ! j \<noteq> Some (p_symbol me)"
    using assms(4) by (auto simp: firstMarkAt_def list_all_iff)
  obtain rest where f: "filter (\<lambda>i. brd ! i = Some (p_symbol me)) [0..<length brd] = k # rest"
    using filter_first[of k "length brd" "\<lambda>i. brd ! i = Some (p_symbol me)"] k by blast
  have rng: "0 \<le> position" "position < int (length brd)"
    using assms(2) by (auto simp: read_def split: if_splits)
  show ?thesis
    using assms(1-3) f rng k(1)
    by (simp add: applyCardEffect_def Let_def setCell_def)
qed

text \<open>
  Claim C7, as the code has it. For a move with a SwapCell card that passed the checks
  and consumed the card: if the target cell holds the symbol of the opponent (the
  first other player of the room) and the acting player has a mark on the board, the
  acting player's first mark in cell order and the target mark are exchanged, the
  exchange is stored and broadcast, and the placement is then refused as an invalid
  move, the target cell being occupied. If the target cell holds the opponent's symbol
  but the acting player has no mark yet, or the target cell does not hold the
  opponent's symbol (or there is no opponent), the card changes nothing and the move
  proceeds exactly as the plain move to the chosen cell does on the store with the
  card consumed.
\<close>

theorem swapCell_effect:
  assumes "map_of (gameRooms st) rid = Some room" "status room = PLAYING"
    "currentTurn room = socketId"
    "useUserCard (db st) socketId ''SWAP_CELL'' = Some d1"
  shows "(find (\<lambda>p. p_id p \<noteq> socketId) (players room) = Some opponent
          \<and> read (boardState room) position = Some (Some (p_symbol opponent))
          \<and> find (\<lambda>p. p_id p = socketId) (players room) = Some me
          \<and> firstMarkAt (boardState room) (p_symbol me) k
          \<longrightarrow> makeMove st socketId now (rid, position, Some ''SWAP_CELL'')
              = (st\<lparr>gameRooms :=
                      AList.update rid
                        (room\<lparr>boardState := (boardState room)
                                 [nat position := Some (p_symbol me),
                                  k := Some (p_symbol opponent)]\<rparr>)
                        (gameRooms st),
                    db := d1\<rparr>,
                 [(ToRoom rid, CardUsed ''Swap Cell'' socketId),
                  (ToSocket socketId, Error ''Invalid move'')]))
       \<and> (find (\<lambda>p. p_id p \<noteq> socketId) (players room) = Some opponent
          \<and> read (boardState room) position = Some (Some (p_symbol opponent))
          \<and> find (\<lambda>p. p_id p = socketId) (players room) = Some me
          \<and> noMark (boardState room) (p_symbol me)
          \<longrightarrow> makeMove st socketId now (rid, position, Some ''SWAP_CELL'')
              = makeMove (st\<lparr>db := d1\<rparr>) socketId now (rid, position, None))
       \<and> (find (\<lambda>p. p_id p \<noteq> socketId) (players room) = None
          \<or> (find (\<lambda>p. p_id p \<noteq> socketId) (players room) = Some opponent
              \<and> read (boardState room) position \<noteq> Some (Some (p_symbol opponent)))
          \<longrightarrow> makeMove st socketId now (rid, position, Some ''SWAP_CELL'')
              = makeMove (st\<lparr>db := d1\<rparr>) socketId now (rid, position, None))"
proof -
  let ?brd = "boardState room"
  have plain: "makeMove (st\<lparr>db := d1\<rparr>) socketId now (rid, position, None)
       = placeMark st d1 room ?brd [] rid now socketId position"
    using assms(1-3) by (rule makeMove_no_card)
  have card: "makeMove st socketId now (rid, position, Some ''SWAP_CELL'')
       = (case applyCardEffect room ?brd rid socketId position ''SWAP_CELL'' of
            (room1, brd1, out) \<Rightarrow> placeMark st d1 room1 brd1 out rid now socketId position)"
    using assms by (intro makeMove_with_card) auto
  have a: "makeMove st socketId now (rid, position, Some ''SWAP_CELL'')
              = (st\<lparr>gameRooms :=
                      AList.update rid
                        (room\<lparr>boardState := ?brd[nat position := Some (p_symbol me),
                                                  k := Some (p_symbol opponent)]\<rparr>)
                        (gameRooms st),
                    db := d1\<rparr>,
                 [(ToRoom rid, CardUsed ''Swap Cell'' socketId),
                  (ToSocket socketId, Error ''Invalid move'')])"
    if h: "find (\<lambda>p. p_id p \<noteq> socketId) (players room) = Some opponent"
      "read ?brd position = Some (Some (p_symbol opponent))"
      "find (\<lambda>p. p_id p = socketId) (players room) = Some me"
      "firstMarkAt ?brd (p_symbol me) k"
  proof -
    let ?sw = "?brd[nat position := Some (p_symbol me), k := Some (p_symbol opponent)]"
    have rng: "0 \<le> position" "position < int (length ?brd)"
      using h(2) by (auto simp: read_def split: if_splits)
    have k: "k < length ?brd" using h(4) by (simp add: firstMarkAt_def)
    have "?sw ! nat position \<noteq> None"
      using rng k by (cases "k = nat position") (simp_all add: nth_list_update)
    then have "read ?sw position \<noteq> Some None"
      using rng by (simp add: read_def)
    then have inv: "invalidTarget (room\<lparr>boardState := ?sw\<rparr>) ?sw position"
      by (simp add: invalidTarget_def)
    show ?thesis
      unfolding card swap_exchange[OF h] by (simp add: placeMark_invalid[OF inv])
  qed
  have b: "makeMove st socketId now (rid, position, Some ''SWAP_CELL'')
              = makeMove (st\<lparr>db := d1\<rparr>) socketId now (rid, position, None)"
    if "find (\<lambda>p. p_id p \<noteq> socketId) (players room) = None
           \<or> (find (\<lambda>p. p_id p \<noteq> socketId) (players room) = Some opponent
               \<and> (read ?brd position \<noteq> Some (Some (p_symbol opponent))
                    \<or> find (\<lambda>p. p_id p = socketId) (players room) = None
                    \<or> (find (\<lambda>p. p_id p = socketId) (players room) = Some me
                        \<and> noMark ?brd (p_symbol me))))"
    unfolding card plain swap_noop[OF that] by simp
  show ?thesis using a b by blast
qed

lemma roomOf_update:
  "roomOf (st\<lparr>gameRooms := AList.update ''room'' r g, db := d\<rparr>) = r"
  by (simp add: roomOf_def update_conv')

theorem swapCell_effect_witness:
  "boardState (roomOf (fst (makeMove roomSwap ''s2'' 0 (''room'', 0, Some ''SWAP_CELL''))))
     = [Some SymO, Some SymX, None, Some SymX, None, None, None, None, None]
   \<and> snd (makeMove roomSwap ''s2'' 0 (''room'', 0, Some ''SWAP_CELL''))
     = [(ToRoom ''room'', CardUsed ''Swap Cell'' ''s2''), (ToSocket ''s2'', Error ''Invalid move'')]
   \<and> makeMove roomSwap ''s2'' 0 (''room'', 2, Some ''SWAP_CELL'')
     = makeMove (roomSwap\<lparr>db := consumedStore roomSwap ''s2'' ''SWAP_CELL''\<rparr>) ''s2'' 0
         (''room'', 2, None)"
proof -
  let ?room = "roomOf roomSwap"
  let ?opp = "hd (players ?room)"
  let ?me = "last (players ?room)"
  let ?d1 = "consumedStore roomSwap ''s2'' ''SWAP_CELL''"
  have p: "map_of (gameRooms roomSwap) ''room'' = Some ?room" by code_simp
  have s: "status ?room = PLAYING" by code_simp
  have t: "currentTurn ?room = ''s2''" by code_simp
  have u: "useUserCard (db roomSwap) ''s2'' ''SWAP_CELL'' = Some ?d1"
    unfolding consumedStore_def by code_simp
  have o: "find (\<lambda>p. p_id p \<noteq> ''s2'') (players ?room) = Some ?opp" by code_simp
  have m: "find (\<lambda>p. p_id p = ''s2'') (players ?room) = Some ?me" by code_simp
  have os: "p_symbol ?opp = SymX" and ms: "p_symbol ?me = SymO" by code_simp+
  have b: "boardState ?room = [Some SymX, Some SymX, None, Some SymO, None, None, None, None, None]"
    by code_simp
  have r0: "read (boardState ?room) 0 = Some (Some (p_symbol ?opp))"
    unfolding b os by (simp add: read_def)
  have r2: "read (boardState ?room) 2 \<noteq> Some (Some (p_symbol ?opp))"
    unfolding b os by (simp add: read_def)
  have f: "firstMarkAt (boardState ?room) (p_symbol ?me) 3"
    unfolding b ms by code_simp
  have e1: "makeMove roomSwap ''s2'' 0 (''room'', 0, Some ''SWAP_CELL'')
      = (roomSwap\<lparr>gameRooms :=
            AList.update ''room''
              (?room\<lparr>boardState := (boardState ?room)
                  [nat 0 := Some (p_symbol ?me), 3 := Some (p_symbol ?opp)]\<rparr>)
              (gameRooms roomSwap),
          db := ?d1\<rparr>,
         [(ToRoom ''room'', CardUsed ''Swap Cell'' ''s2''),
          (ToSocket ''s2'', Error ''Invalid move'')])"
    using swapCell_effect[OF p s t u, of ?opp 0 ?me 3 0] o m r0 f by blast
  have e2: "makeMove roomSwap ''s2'' 0 (''room'', 2, Some ''SWAP_CELL'')
      = makeMove (roomSwap\<lparr>db := ?d1\<rparr>) ''s2'' 0 (''room'', 2, None)"
    using swapCell_effect[OF p s t u, of ?opp 2 ?me 3 0] o r2 by blast
  show ?thesis
    unfolding e1 e2 by (simp add: roomOf_update b os ms)
qed

text \<open>
  Claim C7 as stated fails where the acting player has no mark: after the first move
  of \<open>s1\<close> to cell 0, \<open>s2\<close> plays SwapCell on cell 0, which holds the opponent's
  symbol, and nothing is exchanged.
\<close>

theorem swapCell_no_own_mark_counterexample:
  "find (\<lambda>p. p_id p \<noteq> ''s2'') (players (roomOf roomFirst)) = Some (hd (players (roomOf roomFirst)))
   \<and> read (boardState (roomOf roomFirst)) 0
       = Some (Some (p_symbol (hd (players (roomOf roomFirst)))))
   \<and> applyCardEffect (roomOf roomFirst) (boardState (roomOf roomFirst)) ''room'' ''s2'' 0 ''SWAP_CELL''
       = (roomOf roomFirst, boardState (roomOf roomFirst), [])
   \<and> boardState (roomOf (fst (makeMove roomFirst ''s2'' 0 (''room'', 0, Some ''SWAP_CELL''))))
       = boardState (roomOf roomFirst)"
  by code_simp

text \<open>
  Claim C10. A move with a DoubleMove card that passed the checks consumes the card
  and otherwise is the plain move on the store with the card consumed: the same
  resulting state, and the same emissions after the \<open>cardUsed\<close> broadcast. In
  particular a legal placement that does not end the game writes the one mark, appends
  the one move record, leaves the blocked cells alone and passes the turn to the other
  player.
\<close>

theorem doubleMove_effect:
  assumes "map_of (gameRooms st) rid = Some room" "status room = PLAYING"
    "currentTurn room = socketId"
    "useUserCard (db st) socketId ''DOUBLE_MOVE'' = Some d1"
  shows "cardConsumed (db st) d1 socketId ''DOUBLE_MOVE''
       \<and> makeMove st socketId now (rid, position, Some ''DOUBLE_MOVE'')
           = (fst (makeMove (st\<lparr>db := d1\<rparr>) socketId now (rid, position, None)),
              (ToRoom rid, CardUsed ''Double Move'' socketId)
                # snd (makeMove (st\<lparr>db := d1\<rparr>) socketId now (rid, position, None)))
       \<and> (\<not> invalidTarget room (boardState room) position
          \<and> find (\<lambda>p. p_id p = socketId) (players room) = Some me
          \<and> evaluate (setCell (boardState room) position (Some (p_symbol me))) (boardSize room)
              = Ongoing
          \<and> find (\<lambda>p. p_id p \<noteq> socketId) (players room) = Some nextPlayer
          \<longrightarrow> map_of (gameRooms (fst (makeMove st socketId now (rid, position, Some ''DOUBLE_MOVE''))))
                rid
              = Some (room\<lparr>boardState := setCell (boardState room) position (Some (p_symbol me)),
                          moveHistory := moveHistory room @
                            [\<lparr>m_position = position, m_symbol = p_symbol me,
                              m_playerId = socketId, m_timestamp = now\<rparr>],
                          currentTurn := p_id nextPlayer\<rparr>))"
proof -
  let ?brd = "boardState room"
  have plain: "makeMove (st\<lparr>db := d1\<rparr>) socketId now (rid, position, None)
       = placeMark st d1 room ?brd [] rid now socketId position"
    using assms(1-3) by (rule makeMove_no_card)
  have "makeMove st socketId now (rid, position, Some ''DOUBLE_MOVE'')
       = (case applyCardEffect room ?brd rid socketId position ''DOUBLE_MOVE'' of
            (room1, brd1, out) \<Rightarrow> placeMark st d1 room1 brd1 out rid now socketId position)"
    using assms by (intro makeMove_with_card) auto
  then have card: "makeMove st socketId now (rid, position, Some ''DOUBLE_MOVE'')
       = placeMark st d1 room ?brd [(ToRoom rid, CardUsed ''Double Move'' socketId)]
           rid now socketId position"
    by (simp add: applyCardEffect_def)
  have eq: "makeMove st socketId now (rid, position, Some ''DOUBLE_MOVE'')
           = (fst (makeMove (st\<lparr>db := d1\<rparr>) socketId now (rid, position, None)),
              (ToRoom rid, CardUsed ''Double Move'' socketId)
                # snd (makeMove (st\<lparr>db := d1\<rparr>) socketId now (rid, position, None)))"
    unfolding card plain
    by (subst placeMark_prefix) simp
  have turn: "map_of (gameRooms (fst (makeMove st socketId now (rid, position, Some ''DOUBLE_MOVE''))))
                rid
              = Some (room\<lparr>boardState := setCell ?brd position (Some (p_symbol me)),
                          moveHistory := moveHistory room @
                            [\<lparr>m_position = position, m_symbol = p_symbol me,
                              m_playerId = socketId, m_timestamp = now\<rparr>],
                          currentTurn := p_id nextPlayer\<rparr>)"
    if "\<not> invalidTarget room ?brd position"
      "find (\<lambda>p. p_id p = socketId) (players room) = Some me"
      "evaluate (setCell ?brd position (Some (p_symbol me))) (boardSize room) = Ongoing"
      "find (\<lambda>p. p_id p \<noteq> socketId) (players room) = Some nextPlayer"
    using that unfolding card
    by (simp add: placeMark_def invalidTarget_def Let_def update_conv')
  show ?thesis using useUserCard_consumes[OF assms(4)] eq turn by blast
qed

theorem doubleMove_effect_witness:
  "cardConsumed (db roomPlaying) (consumedStore roomPlaying ''s1'' ''DOUBLE_MOVE'') ''s1'' ''DOUBLE_MOVE''
   \<and> currentTurn (roomOf (fst (makeMove roomPlaying ''s1'' 0 (''room'', 4, Some ''DOUBLE_MOVE''))))
       = ''s2''
   \<and> boardState (roomOf (fst (makeMove roomPlaying ''s1'' 0 (''room'', 4, Some ''DOUBLE_MOVE''))))
       = [None, None, None, None, Some SymX, None, None, None, None]
   \<and> blockedCells (roomOf (fst (makeMove roomPlaying ''s1'' 0 (''room'', 4, Some ''DOUBLE_MOVE''))))
       = []"
proof -
  let ?room = "roomOf roomPlaying"
  let ?me = "hd (players ?room)"
  let ?nx = "last (players ?room)"
  let ?d1 = "consumedStore roomPlaying ''s1'' ''DOUBLE_MOVE''"
  have p: "map_of (gameRooms roomPlaying) ''room'' = Some ?room" by code_simp
  have s: "status ?room = PLAYING" by code_simp
  have t: "currentTurn ?room = ''s1''" by code_simp
  have u: "useUserCard (db roomPlaying) ''s1'' ''DOUBLE_MOVE'' = Some ?d1"
    unfolding consumedStore_def by code_simp
  have v: "\<not> invalidTarget ?room (boardState ?room) 4" by code_simp
  have m: "find (\<lambda>p. p_id p = ''s1'') (players ?room) = Some ?me" by code_simp
  have n: "find (\<lambda>p. p_id p \<noteq> ''s1'') (players ?room) = Some ?nx" by code_simp
  have e: "evaluate (setCell (boardState ?room) 4 (Some (p_symbol ?me))) (boardSize ?room) = Ongoing"
    by code_simp
  have b: "setCell (boardState ?room) 4 (Some (p_symbol ?me))
      = [None, None, None, None, Some SymX, None, None, None, None]" by code_simp
  have i: "p_id ?nx = ''s2''" by code_simp
  have bl: "blockedCells ?room = []" by code_simp
  from doubleMove_effect[OF p s t u, of 0 4 ?me ?nx] v m n e
  have c: "cardConsumed (db roomPlaying) ?d1 ''s1'' ''DOUBLE_MOVE''"
    and r: "map_of (gameRooms (fst (makeMove roomPlaying ''s1'' 0 (''room'', 4, Some ''DOUBLE_MOVE''))))
                ''room''
              = Some (?room\<lparr>boardState := setCell (boardState ?room) 4 (Some (p_symbol ?me)),
                          moveHistory := moveHistory ?room @
                            [\<lparr>m_position = 4, m_symbol = p_symbol ?me,
                              m_playerId = ''s1'', m_timestamp = 0\<rparr>],
                          currentTurn := p_id ?nx\<rparr>)"
    by blast+
  show ?thesis
    using c by (simp add: roomOf_def[of "fst (makeMove roomPlaying ''s1'' 0 (''room'', 4, Some ''DOUBLE_MOVE''))"] r b i bl)
qed

section \<open>Creating a room\<close>

text \<open>
  Claim C5, as the code has it. For a board size whose square is an array length (in
  particular 3, 4 and 5), \<open>createRoom\<close> reports no error whether or not the room id
  is taken: afterwards the id names a new room with an empty board of \<open>N * N\<close> cells,
  status \<open>WAITING\<close>, no winner, no blocked cell, an empty move log, and the creator as
  its only player, with symbol X and the turn. Rooms under other ids are untouched.
\<close>

theorem createRoom_always_creates:
  assumes "bSize * bSize < 2 ^ 32"
  shows "list_all (\<lambda>em. \<not> isError (snd em)) (snd (createRoom st socketId (rid, playerName, bSize)))
       \<and> (\<exists>room1. map_of (gameRooms (fst (createRoom st socketId (rid, playerName, bSize)))) rid
                     = Some room1
              \<and> boardState room1 = replicate (nat (bSize * bSize)) None
              \<and> int (length (boardState room1)) = bSize * bSize
              \<and> boardSize room1 = bSize
              \<and> status room1 = WAITING \<and> winner room1 = None
              \<and> blockedCells room1 = [] \<and> moveHistory room1 = []
              \<and> map p_id (players room1) = [socketId]
              \<and> map p_symbol (players room1) = [SymX]
              \<and> currentTurn room1 = socketId)
       \<and> (\<forall>other. other \<noteq> rid \<longrightarrow>
              map_of (gameRooms (fst (createRoom st socketId (rid, playerName, bSize)))) other
                = map_of (gameRooms st) other)"
proof -
  have sq: "0 \<le> bSize * bSize" by simp
  show ?thesis
    using assms sq
    by (simp add: createRoom_def createGameRoom_def Let_def isError_def update_conv')
qed

theorem createRoom_always_creates_witness:
  "map_option boardState (map_of (gameRooms (fst (createRoom lobby ''s1'' (''room'', ''Ann'', 3)))) ''room'')
     = Some (replicate 9 None)
   \<and> map_option status (map_of (gameRooms (fst (createRoom lobby ''s1'' (''room'', ''Ann'', 3)))) ''room'')
     = Some WAITING
   \<and> list_all (\<lambda>em. \<not> isError (snd em)) (snd (createRoom lobby ''s1'' (''room'', ''Ann'', 3)))"
proof -
  have h: "(3::int) * 3 < 2 ^ 32" by simp
  from createRoom_always_creates[OF h, of lobby "''s1''" "''room''" "''Ann''"]
  obtain room1 where
    "map_of (gameRooms (fst (createRoom lobby ''s1'' (''room'', ''Ann'', 3)))) ''room'' = Some room1"
    "boardState room1 = replicate (nat (3 * 3)) None" "status room1 = WAITING"
    "list_all (\<lambda>em. \<not> isError (snd em)) (snd (createRoom lobby ''s1'' (''room'', ''Ann'', 3)))"
    by blast
  then show ?thesis by simp
qed

text \<open>
  Claim C5 as stated fails: creating a room under the id of the running example room
  reports success and replaces the room of \<open>s1\<close> and \<open>s2\<close> by a waiting room of \<open>s3\<close>.
\<close>

theorem createRoom_existing_counterexample:
  "map_of (gameRooms roomPlaying) ''room'' = Some (roomOf roomPlaying)
   \<and> snd (createRoom roomPlaying ''s3'' (''room'', ''Cy'', 3))
       = [(ToSocket ''s3'', RoomCreated ''room'' ''s3''),
          (ToRoom ''room'',
           GameStateUpdate (roomOf (fst (createRoom roomPlaying ''s3'' (''room'', ''Cy'', 3)))))]
   \<and> map p_id (players (roomOf roomPlaying)) = [''s1'', ''s2'']
   \<and> status (roomOf roomPlaying) = PLAYING
   \<and> map p_id (players (roomOf (fst (createRoom roomPlaying ''s3'' (''room'', ''Cy'', 3))))) = [''s3'']
   \<and> status (roomOf (fst (createRoom roomPlaying ''s3'' (''room'', ''Cy'', 3)))) = WAITING"
  by code_simp

section \<open>Room invariants over the reachable states\<close>

lemma roomsInv_update:
  assumes "roomsInv st" "roomOk room"
  shows "roomsInv (st\<lparr>gameRooms := AList.update rid room (gameRooms st), db := d\<rparr>)"
  using assms by (auto simp: roomsInv_def distinct_update update_conv')

lemma roomsInv_db: "roomsInv (st\<lparr>db := d\<rparr>) = roomsInv st"
  by (simp add: roomsInv_def)

lemma createRoom_inv:
  assumes "roomsInv st"
  shows "roomsInv (fst (createRoom st socketId data))"
proof -
  obtain rid playerName bSize where d: "data = (rid, playerName, bSize)" by (cases data) auto
  show ?thesis
  proof (cases "createGameRoom rid bSize")
    case None
    then show ?thesis using assms d by (simp add: createRoom_def roomsInv_db)
  next
    case (Some room)
    then have "roomOk (room\<lparr>players := players room @
        [\<lparr>p_id = socketId, p_name = playerName, p_symbol = SymX, p_isCurrent = True,
          p_cards = getUserCards (upsertUser (db st) socketId playerName) socketId\<rparr>],
        currentTurn := socketId\<rparr>)"
      by (auto simp: createGameRoom_def roomOk_def split: if_splits)
    then show ?thesis
      using assms d Some by (simp add: createRoom_def Let_def roomsInv_update)
  qed
qed

lemma joinRoom_inv:
  assumes "roomsInv st"
  shows "roomsInv (fst (joinRoom st socketId data))"
proof -
  obtain rid playerName where d: "data = (rid, playerName)" by (cases data) auto
  show ?thesis
  proof (cases "map_of (gameRooms st) rid")
    case None
    then show ?thesis using assms d by (simp add: joinRoom_def)
  next
    case (Some room)
    have ok: "roomOk room" using assms Some by (auto simp: roomsInv_def)
    show ?thesis
    proof (cases "length (players room) \<ge> 2")
      case True
      then show ?thesis using assms d Some by (simp add: joinRoom_def)
    next
      case False
      then have "roomOk (room\<lparr>players := players room @
          [\<lparr>p_id = socketId, p_name = playerName, p_symbol = SymO, p_isCurrent = False,
            p_cards = getUserCards (upsertUser (db st) socketId playerName) socketId\<rparr>],
          status := PLAYING\<rparr>)"
        using ok by (auto simp: roomOk_def)
      then show ?thesis
        using assms d Some False by (simp add: joinRoom_def Let_def roomsInv_update)
    qed
  qed
qed

lemma length_setCell: "length (setCell b i v) = length b"
  by (simp add: setCell_def)

lemma applyCardEffect_length:
  assumes "applyCardEffect room brd rid socketId position cardType = (room1, brd1, out)"
  shows "length brd1 = length brd
       \<and> (boardState room1 = boardState room \<or> boardState room1 = brd1)"
  using assms
  by (auto simp: applyCardEffect_def Let_def length_setCell
           split: if_splits option.splits list.splits)

lemma placeMark_room:
  "\<exists>room2. gameRooms (fst (placeMark st d room brd out rid now socketId position))
             = AList.update rid room2 (gameRooms st)
     \<and> players room2 = players room \<and> boardSize room2 = boardSize room
     \<and> (status room2 = status room \<or> status room2 = FINISHED)
     \<and> (boardState room2 = boardState room \<or> length (boardState room2) = length brd)"
  by (auto simp: placeMark_def Let_def length_setCell split: option.splits outcome.splits)

lemma makeMove_inv:
  assumes "roomsInv st"
  shows "roomsInv (fst (makeMove st socketId now data))"
proof -
  obtain rid position cardType where d: "data = (rid, position, cardType)"
    by (cases data) auto
  show ?thesis
  proof (cases "map_of (gameRooms st) rid")
    case None
    then show ?thesis using assms d by (simp add: makeMove_def)
  next
    case (Some room)
    have ok: "roomOk room" using assms Some by (auto simp: roomsInv_def)
    have step: "roomsInv (fst (placeMark st d1 room1 brd1 out rid now socketId position))"
      if "players room1 = players room" "boardSize room1 = boardSize room"
        "status room1 = status room" "length brd1 = length (boardState room)"
        "boardState room1 = boardState room \<or> boardState room1 = brd1"
      for room1 brd1 d1 out
    proof -
      obtain room2 where r2:
        "gameRooms (fst (placeMark st d1 room1 brd1 out rid now socketId position))
           = AList.update rid room2 (gameRooms st)"
        "players room2 = players room1" "boardSize room2 = boardSize room1"
        "status room2 = status room1 \<or> status room2 = FINISHED"
        "boardState room2 = boardState room1 \<or> length (boardState room2) = length brd1"
        using placeMark_room[of st d1 room1 brd1 out rid now socketId position] by blast
      have "roomOk room2"
        using ok r2(2-5) that by (auto simp: roomOk_def)
      then have "roomsInv (st\<lparr>gameRooms := AList.update rid room2 (gameRooms st),
                               db := db (fst (placeMark st d1 room1 brd1 out rid now socketId position))\<rparr>)"
        using assms by (rule roomsInv_update[rotated])
      then show ?thesis using r2(1) by (simp add: roomsInv_def)
    qed
    show ?thesis
    proof (cases "status room \<noteq> PLAYING \<or> currentTurn room \<noteq> socketId")
      case True
      then show ?thesis using assms d Some by (auto simp: makeMove_def)
    next
      case False
      show ?thesis
      proof (cases "truthy cardType")
        case nocard: False
        then show ?thesis
          using d Some False step[of room "boardState room" "db st" "[]"]
          by (simp add: makeMove_def)
      next
        case True
        show ?thesis
        proof (cases "useUserCard (db st) socketId (the cardType)")
          case None
          then show ?thesis using assms d Some False True by (auto simp: makeMove_def)
        next
          case (Some d1)
          obtain room1 brd1 out where eff:
            "applyCardEffect room (boardState room) rid socketId position (the cardType)
               = (room1, brd1, out)"
            by (cases "applyCardEffect room (boardState room) rid socketId position (the cardType)")
               auto
          have "roomsInv (fst (placeMark st d1 room1 brd1 out rid now socketId position))"
            using applyCardEffect_frame[OF eff] applyCardEffect_length[OF eff]
            by (intro step) auto
          then show ?thesis
            using d \<open>map_of (gameRooms st) rid = Some room\<close> False True Some eff
            by (simp add: makeMove_def)
        qed
      qed
    qed
  qed
qed

lemma length_removeFirst:
  "list_ex P xs \<Longrightarrow> Suc (length (removeFirst P xs)) = length xs"
  by (induction xs) auto

lemma disconnect_inv:
  assumes "roomsInv st"
  shows "roomsInv (fst (disconnect st socketId))"
proof (cases "find (\<lambda>(rid, room). list_ex (\<lambda>p. p_id p = socketId) (players room)) (gameRooms st)")
  case None
  then show ?thesis using assms by (simp add: disconnect_def)
next
  case (Some e)
  obtain rid room where e: "e = (rid, room)" by (cases e) auto
  have mem: "(rid, room) \<in> set (gameRooms st)" and ex: "list_ex (\<lambda>p. p_id p = socketId) (players room)"
    using Some e by (auto simp: find_Some_iff in_set_conv_nth)
  have m: "map_of (gameRooms st) rid = Some room"
    using assms mem by (simp add: roomsInv_def)
  have ok: "roomOk room" using assms m by (auto simp: roomsInv_def)
  let ?ps = "removeFirst (\<lambda>p. p_id p = socketId) (players room)"
  have len: "Suc (length ?ps) = length (players room)" using ex by (rule length_removeFirst)
  show ?thesis
  proof (cases "length ?ps = 0")
    case True
    then have "fst (disconnect st socketId) = st\<lparr>gameRooms := AList.delete rid (gameRooms st)\<rparr>"
      using Some e by (simp add: disconnect_def Let_def)
    then show ?thesis
      using assms by (auto simp: roomsInv_def distinct_delete delete_conv' split: if_splits)
  next
    case False
    have "1 \<le> length ?ps" using False by (simp add: Suc_leI)
    then have "roomOk (room\<lparr>players := ?ps, status := WAITING\<rparr>)"
      using ok len by (auto simp: roomOk_def)
    then have "roomsInv (st\<lparr>gameRooms :=
        AList.update rid (room\<lparr>players := ?ps, status := WAITING\<rparr>) (gameRooms st), db := db st\<rparr>)"
      using assms by (rule roomsInv_update[rotated])
    then show ?thesis
      using Some e False by (simp add: disconnect_def Let_def roomsInv_def)
  qed
qed

lemma reachable_roomsInv: "reachable st \<Longrightarrow> roomsInv st"
proof (induction rule: reachable.induct)
  case (start d)
  then show ?case by (simp add: roomsInv_def)
next
  case (query st socketId rid)
  then show ?case by (simp add: getGameState_def split: option.splits)
qed (simp_all add: createRoom_inv joinRoom_inv makeMove_inv disconnect_inv)

lemma reachable_roomPlaying: "reachable roomPlaying"
  unfolding roomPlaying_def roomOpen_def lobby_def
  by (intro reachable.intros)

lemma reachable_roomTwoLines: "reachable roomTwoLines"
  unfolding roomTwoLines_def roomBeforeSwap_def plainMoves_def foldl_Cons foldl_Nil fst_conv snd_conv
  by (intro reachable.move reachable_roomPlaying)

lemma two_lines_reached:
  "boardState (roomOf roomTwoLines) = twoLinesBoard
   \<and> status (roomOf roomBeforeSwap) = PLAYING
   \<and> status (roomOf roomTwoLines) = FINISHED
   \<and> winner (roomOf roomTwoLines) = Some SymX"
  by code_simp

lemma reachable_roomWon: "reachable roomWon"
  unfolding roomWon_def plainMoves_def foldl_Cons foldl_Nil fst_conv snd_conv
  by (intro reachable.move reachable_roomPlaying)

lemma reachable_roomRejoined: "reachable roomRejoined"
  unfolding roomRejoined_def
  by (intro reachable.join reachable.leave reachable_roomWon)

lemma reachable_roomBlocked: "reachable roomBlocked"
  unfolding roomBlocked_def
  by (intro reachable.move reachable_roomPlaying)

text \<open>
  Claim C4 at the input that breaks it. In the example room \<open>s1\<close> wins on the top row,
  so the room is \<open>FINISHED\<close> with winner X; \<open>s2\<close> disconnects and the room is
  \<open>WAITING\<close>; \<open>s3\<close> joins and the room is \<open>PLAYING\<close> with two players and the
  winner still X. (That a \<open>PLAYING\<close> room has exactly two players holds in every
  reachable state, by \<open>reachable_roomsInv\<close>.)
\<close>

theorem rejoin_keeps_stale_winner:
  "status (roomOf roomWon) = FINISHED \<and> winner (roomOf roomWon) = Some SymX
   \<and> status (roomOf (fst (disconnect roomWon ''s2''))) = WAITING
   \<and> status (roomOf roomRejoined) = PLAYING
   \<and> winner (roomOf roomRejoined) = Some SymX
   \<and> map p_id (players (roomOf roomRejoined)) = [''s1'', ''s3'']"
  by code_simp

text \<open>
  Claim C6 at the input that breaks it. In the example 3x3 room \<open>s1\<close> plays a Block
  card on the index 100: the placement is refused as an invalid move, and 100 stays in
  the blocked cells of a board of 9 cells. (That the board has \<open>N * N\<close> cells holds in
  every reachable state, by \<open>reachable_roomsInv\<close>.)
\<close>

theorem block_out_of_range:
  "boardSize (roomOf roomPlaying) = 3 \<and> length (boardState (roomOf roomPlaying)) = 9
   \<and> blockedCells (roomOf roomPlaying) = []
   \<and> snd (makeMove roomPlaying ''s1'' 0 (''room'', 100, Some ''BLOCK''))
       = [(ToRoom ''room'', CardUsed ''Block'' ''s1''), (ToSocket ''s1'', Error ''Invalid move'')]
   \<and> blockedCells (roomOf roomBlocked) = [100]
   \<and> length (boardState (roomOf roomBlocked)) = 9"
  by code_simp

end
